theory Spec2Isabelle
  imports Main "HOL-Library.AList" "HOL-Library.Multiset"
begin

text \<open>
  A model of the sync and push engine of Sincronia's core package: the module
  that exports \<open>processManifest\<close>, \<open>findMissingFiles\<close>, \<open>processMissingFiles\<close>,
  \<open>groupAppFiles\<close>, \<open>buildRec\<close>, \<open>pushFiles\<close>, \<open>swapScope\<close>,
  \<open>createAndAssignUpdateSet\<close> and \<open>checkScope\<close>. Each function of the module is
  a definition of the same name. What the module imports (filesystem helpers,
  the remote client, the plugin manager, the logger, configuration) is a
  parameter: a record of functions giving the outcome of each call, with the
  calls themselves logged where a statement is about which calls are made.
  The built-in objects of the JavaScript runtime, from which every object
  inherits, are a parameter as well.
  A promise is its outcome, \<open>Inl\<close> of the rejection or \<open>Inr\<close> of the value.
\<close>

section \<open>JavaScript values of the sync engine\<close>

text \<open>
  A thrown or rejected value is a JavaScript \<open>Error\<close> carrying its \<open>message\<close> (\<open>error_message\<close>).
  A plain object with string keys is the list of its own entries in the order
  \<open>Object.keys\<close> enumerates them; a real object has no key twice
  (\<open>distinct (keys ob)\<close>). For an own key \<open>ob[k]\<close> is \<open>map_of ob k\<close>, and an
  assignment \<open>ob[k] = v\<close> that reaches the object is \<open>AList.update k v ob\<close>:
  it replaces the value in place when the key is there and appends the entry
  otherwise. What a read finds for a key that is not the object's own, and
  which assignments do not reach the object, is the subject of the section on
  inherited properties.
\<close>

datatype Error = Error (error_message: string)

type_synonym 'v obj = "(string \<times> 'v) list"

definition keys :: "'v obj \<Rightarrow> string list" where
  "keys ob = map fst ob"

text \<open>
  Paths are lists of segments. Node's \<open>path.join\<close> of a directory and one
  name (a table name, a record's name) is the directory's path with that
  segment added.
\<close>

type_synonym path = "string list"

definition path_join :: "path \<Rightarrow> string \<Rightarrow> path" where
  "path_join p s = p @ [s]"

text \<open>
  Modelled from the spec: \<open>appendToPath\<close> of \<open>FileUtils\<close>, which is not among
  the sources. The detector "walks the manifest hierarchy top-down", from the
  source path to a table's directory to a record's directory: the curried
  \<open>appendToPath(prefix)(suffix)\<close> joins the suffix onto the prefix.
\<close>

definition appendToPath :: "path \<Rightarrow> string \<Rightarrow> path" where
  "appendToPath prefix suffix = path_join prefix suffix"

section \<open>Manifest model\<close>

text \<open>
  \<open>SN.File\<close>, \<open>SN.MetaRecord\<close>, \<open>SN.TableConfig\<close> and \<open>SN.AppManifest\<close>.
  The optional \<open>content\<close> of a file is \<open>None\<close> once \<open>delete file.content\<close>
  has run. The record's \<open>name\<close> field is \<open>rec_name\<close> here.
\<close>

record File =
  name :: string
  type :: string
  content :: "string option"

record MetaRecord =
  sys_id :: string
  rec_name :: string
  files :: "File list"

record TableConfig =
  records :: "MetaRecord obj"

record AppManifest =
  scope :: string
  tables :: "TableConfig obj"

text \<open>\<open>SN.MissingFileTableMap\<close>: table name, then record sys_id, then the list of \<open>{name, type}\<close>.\<close>

type_synonym MissingFileTableMap = "(string \<times> string) list obj obj"

section \<open>File contexts\<close>

text \<open>
  \<open>Sinc.FileContext\<close> with the fields this module reads: \<open>sys_id\<close> and \<open>name\<close>
  are \<open>ctx_sys_id\<close> and \<open>ctx_name\<close> here, and \<open>fileContents\<close> stands for what
  the content transformer consumes. An absent or empty \<open>name\<close> is the empty string.
\<close>

record FileContext =
  tableName :: string
  ctx_sys_id :: string
  targetField :: string
  ctx_name :: string
  fileContents :: string

type_synonym RecordContextMap = "FileContext obj"
type_synonym TableContextTree = "RecordContextMap obj"
type_synonym AppFileContextTree = "TableContextTree obj"

section \<open>Inherited properties\<close>

text \<open>
  A list of entries holds the own properties of an object. A property read
  \<open>ob[k]\<close> also finds what the object inherits: an object made with \<open>{}\<close>
  inherits \<open>constructor\<close>, \<open>toString\<close>, \<open>__proto__\<close> and the other properties
  of \<open>Object.prototype\<close>, and whatever else has been put there. The built-in
  objects are not part of the module. Their state is a value \<open>b\<close> of a type
  of the runtime's choice, and the runtime tells, for an object made with
  \<open>{}\<close> that has no own property \<open>k\<close>:

  \<^item> \<open>reads_truthy b k\<close>: the object inherits a truthy value under \<open>k\<close>, so
    that \<open>!ob[k]\<close> is false;

  \<^item> \<open>assignable b k\<close>: the assignment \<open>ob[k] = v\<close> gives the object the own
    property \<open>k\<close>; it does not when the object inherits a setter or a
    read-only property of that name (assigning to \<open>__proto__\<close> sets the
    prototype and adds no property);

  \<^item> \<open>builtin_step b a\<close>: what becomes of the built-in objects, or the error
    thrown, when statements of the module run on a value that is not an own
    property of the object at hand. The access \<open>a\<close> names the function
    (\<open>markFileMissing\<close> with its table, record id and \<open>{name, type}\<close> entry,
    or the reducer of \<open>groupAppFiles\<close> with its file context) and the level
    of the key that was not the object's own: the table, the record or the
    field.

  The values the module itself stores are objects and arrays, hence truthy:
  \<open>!ob[k]\<close> is false for an own key.
\<close>

datatype level = Table_level | Record_level | Field_level

datatype builtin_access =
    Marking level string string "string \<times> string"
  | Grouping level FileContext

record 'b js_runtime =
  reads_truthy :: "'b \<Rightarrow> string \<Rightarrow> bool"
  assignable :: "'b \<Rightarrow> string \<Rightarrow> bool"
  builtin_step :: "'b \<Rightarrow> builtin_access \<Rightarrow> Error + 'b"

text \<open>
  The statement \<open>if (!ob[key]) ob[key] = {}\<close> (or \<open>= []\<close>) on an object made
  with \<open>{}\<close>. The result is the object afterwards when \<open>ob[key]\<close> is then an
  own property, which it was before or has become now. The result is \<open>None\<close>
  when it is not: the key reads as truthy through inheritance and nothing is
  assigned, or the assignment adds no property. In both cases the own
  properties of \<open>ob\<close> are as they were.
\<close>

definition assign_if_falsy :: "'b js_runtime \<Rightarrow> 'b \<Rightarrow> 'v list obj \<Rightarrow> string \<Rightarrow> 'v list obj option" where
  "assign_if_falsy rt b ob key =
     (if map_of ob key \<noteq> None then Some ob
      else if reads_truthy rt b key then None
      else if assignable rt b key then Some (AList.update key [] ob)
      else None)"

text \<open>The value of an own property that holds an object or an array.\<close>

definition lookup_obj :: "'v list obj \<Rightarrow> string \<Rightarrow> 'v list" where
  "lookup_obj rec key = (case map_of rec key of None \<Rightarrow> [] | Some v \<Rightarrow> v)"

text \<open>
  \<open>Array.prototype.forEach\<close> and \<open>reduce\<close> with a callback that may throw:
  the first throw ends the loop.
\<close>

fun forEach :: "('a \<Rightarrow> 's \<Rightarrow> Error + 's) \<Rightarrow> 'a list \<Rightarrow> 's \<Rightarrow> Error + 's" where
  "forEach f [] s = Inr s"
| "forEach f (x # xs) s = (case f x s of Inl e \<Rightarrow> Inl e | Inr s' \<Rightarrow> forEach f xs s')"

section \<open>Manifest writer, missing-file detector and reconciler\<close>

text \<open>
  Every call the engine makes to the filesystem helpers (\<open>fUtils\<close>) and to
  \<open>SNClient.getMissingFiles\<close> is logged, in the order the model issues it. The
  source starts sibling operations (the tables, the records of a table)
  concurrently and interleaves them; the model runs them one after the other
  in enumeration order, each to its end. Between stages that the source
  awaits one after the other the order of the log is the source's; between
  the calls of siblings it is the model's own, and the theorems below only
  speak of which calls occur.
\<close>

datatype fs_call =
    Call_createDirRecursively path
  | Call_writeSNFile bool File path
  | Call_writeFileForce path string
  | Call_pathExists path
  | Call_SNFileExists path File
  | Call_getMissingFiles MissingFileTableMap

text \<open>
  The collaborators of the manifest functions, which are not part of the
  module: the configured paths, the outcome of each filesystem helper
  (\<open>True\<close>: the promise resolves, \<open>False\<close>: it rejects; for the two probes the
  boolean they resolve to), \<open>JSON.stringify(manifest, null, indent)\<close>, the
  remote fetch of missing files, and the JavaScript runtime with the state
  \<open>builtins\<close> in which the function called finds the built-in objects.
\<close>

record 'b fs_env =
  sourcePath :: path
  manifestPath :: path
  createDirRecursively :: "path \<Rightarrow> bool"
  writeSNFile :: "bool \<Rightarrow> File \<Rightarrow> path \<Rightarrow> bool"
  writeFileForce :: "path \<Rightarrow> string \<Rightarrow> bool"
  JSON_stringify :: "AppManifest \<Rightarrow> nat \<Rightarrow> string"
  pathExists :: "path \<Rightarrow> bool"
  SNFileExists :: "path \<Rightarrow> File \<Rightarrow> bool"
  getMissingFiles :: "MissingFileTableMap \<Rightarrow> Error + TableConfig obj"
  runtime :: "'b js_runtime"
  builtins :: 'b

definition FilesystemError :: Error where
  "FilesystemError = Error ''FilesystemError''"

subsection \<open>Writing a manifest to disk\<close>

text \<open>
  Each function returns whether its promise resolved, the in-memory object
  after the mutations it made, and the calls it issued. Going through
  \<open>Object.keys(ob)\<close> and reading \<open>ob[key]\<close> visits the entries of \<open>ob\<close> in
  order. \<open>Promise.all\<close> rejects
  as soon as one promise rejects, but the sibling operations were already
  started and still run: every write of a record is issued, and a record whose
  own writes all succeed gets its contents deleted whatever happens elsewhere.
\<close>

definition deleteContent :: "File \<Rightarrow> File" where
  "deleteContent file = file\<lparr>content := None\<rparr>"

definition processFilesInManRec ::
  "'b fs_env \<Rightarrow> path \<Rightarrow> MetaRecord \<Rightarrow> bool \<Rightarrow> bool \<times> MetaRecord \<times> fs_call list" where
  "processFilesInManRec env recPath rec forceWrite =
     (let filePromises = map (\<lambda>file. writeSNFile env forceWrite file recPath) (files rec);
          calls = map (\<lambda>file. Call_writeSNFile forceWrite file recPath) (files rec)
      in if list_all id filePromises
         then (True, rec\<lparr>files := map deleteContent (files rec)\<rparr>, calls)
         else (False, rec, calls))"

definition recKeyToPath :: "path \<Rightarrow> string \<times> MetaRecord \<Rightarrow> path" where
  "recKeyToPath tablePath entry = path_join tablePath (rec_name (snd entry))"

definition processRecsInManTable ::
  "'b fs_env \<Rightarrow> path \<Rightarrow> TableConfig \<Rightarrow> bool \<Rightarrow> bool \<times> TableConfig \<times> fs_call list" where
  "processRecsInManTable env tablePath table forceWrite =
     (let recPaths = map (recKeyToPath tablePath) (records table);
          mkdirs = map Call_createDirRecursively recPaths
      in if \<not> list_all (createDirRecursively env) recPaths
         then (False, table, mkdirs)
         else
           (let done = map (\<lambda>entry. (fst entry,
                   processFilesInManRec env (recKeyToPath tablePath entry) (snd entry) forceWrite))
                 (records table)
            in (list_all (\<lambda>d. fst (snd d)) done,
                table\<lparr>records := map (\<lambda>d. (fst d, fst (snd (snd d)))) done\<rparr>,
                mkdirs @ concat (map (\<lambda>d. snd (snd (snd d))) done))))"

definition processTablesInManifest ::
  "'b fs_env \<Rightarrow> TableConfig obj \<Rightarrow> bool \<Rightarrow> bool \<times> TableConfig obj \<times> fs_call list" where
  "processTablesInManifest env tabs forceWrite =
     (let done = map (\<lambda>entry. (fst entry,
             processRecsInManTable env (path_join (sourcePath env) (fst entry)) (snd entry) forceWrite))
           tabs
      in (list_all (\<lambda>d. fst (snd d)) done,
          map (\<lambda>d. (fst d, fst (snd (snd d)))) done,
          concat (map (\<lambda>d. snd (snd (snd d))) done)))"

definition processManifest ::
  "'b fs_env \<Rightarrow> AppManifest \<Rightarrow> bool \<Rightarrow> (Error + unit) \<times> AppManifest \<times> fs_call list" where
  "processManifest env manifest forceWrite =
     (case processTablesInManifest env (tables manifest) forceWrite of
        (ok, tabs, calls) \<Rightarrow>
          (let manifest' = manifest\<lparr>tables := tabs\<rparr>
           in if \<not> ok then (Inl FilesystemError, manifest', calls)
              else
                (let json = JSON_stringify env manifest' 2
                 in (if writeFileForce env (manifestPath env) json then Inr ()
                     else Inl FilesystemError,
                     manifest',
                     calls @ [Call_writeFileForce (manifestPath env) json]))))"

subsection \<open>Finding the files a manifest declares and the disk lacks\<close>

text \<open>
  The curried \<open>markFileMissing(missingObj)(table)(recordId)\<close> closes over the
  one mutable \<open>missingObj\<close>; the model passes the object along, together with
  the state of the built-in objects, and returns both updated, or the error
  thrown. When \<open>table\<close> is not an own key of \<open>missingObj\<close> and is not filled
  in, \<open>missingObj[table]\<close> is an inherited value and the rest of the function
  works on that value: \<open>missingObj\<close> gets no entry. When \<open>recordId\<close> is not an
  own key of the table's object and is not filled in, \<open>push\<close> is called on an
  inherited value.
\<close>

definition markFileMissing ::
  "'b js_runtime \<Rightarrow> string \<Rightarrow> string \<Rightarrow> File \<Rightarrow>
   MissingFileTableMap \<times> 'b \<Rightarrow> Error + MissingFileTableMap \<times> 'b" where
  "markFileMissing rt table recordId file st =
     (let missingObj = fst st; b = snd st; entry = (name file, type file)
      in case assign_if_falsy rt b missingObj table of
           None \<Rightarrow>
             map_sum id (Pair missingObj) (builtin_step rt b (Marking Table_level table recordId entry))
         | Some m1 \<Rightarrow>
             (case assign_if_falsy rt b (lookup_obj m1 table) recordId of
                None \<Rightarrow>
                  map_sum id (Pair m1) (builtin_step rt b (Marking Record_level table recordId entry))
              | Some tab1 \<Rightarrow>
                  Inr (AList.update table
                         (AList.update recordId (lookup_obj tab1 recordId @ [entry]) tab1) m1, b)))"

definition markRecordMissing ::
  "'b js_runtime \<Rightarrow> MetaRecord \<Rightarrow> string \<Rightarrow>
   MissingFileTableMap \<times> 'b \<Rightarrow> Error + MissingFileTableMap \<times> 'b" where
  "markRecordMissing rt record table st =
     forEach (\<lambda>file. markFileMissing rt table (sys_id record) file) (files record) st"

definition markTableMissing ::
  "'b js_runtime \<Rightarrow> TableConfig \<Rightarrow> string \<Rightarrow>
   MissingFileTableMap \<times> 'b \<Rightarrow> Error + MissingFileTableMap \<times> 'b" where
  "markTableMissing rt table tabName st =
     forEach (\<lambda>entry. markRecordMissing rt (snd entry) tabName) (records table) st"

text \<open>
  The state of a detection run is the missing-file object with the state of
  the built-in objects, or the error once a closure has thrown, and the log
  of probes. At each level all probes are issued before any result is looked
  at (\<open>await Promise.all(checkPromises)\<close>); a probe resolves to the same
  boolean whenever it is read, so \<open>checks[index]\<close> is the probe's outcome. The
  closures of a level run in enumeration order, each to its end. In the
  source the order in which tables and records enter the missing-file object
  depends on when the probes complete; the order of the keys of the model's
  object is therefore not meaningful, and the theorems below only speak of
  what the object holds.

  A throw inside a closure rejects its promise and, through \<open>Promise.all\<close>,
  the whole detection. The other closures were started all the same: they
  still probe, which the log shows, but what they mark is never returned, and
  \<open>when_running\<close> leaves it out.
\<close>

type_synonym 'b detection = "(Error + MissingFileTableMap \<times> 'b) \<times> fs_call list"

definition when_running :: "('s \<Rightarrow> Error + 's) \<Rightarrow> Error + 's \<Rightarrow> Error + 's" where
  "when_running f r = (case r of Inl e \<Rightarrow> Inl e | Inr s \<Rightarrow> f s)"

definition checkFilesForMissing ::
  "'b fs_env \<Rightarrow> path \<Rightarrow> File list \<Rightarrow> string \<Rightarrow> string \<Rightarrow> 'b detection \<Rightarrow> 'b detection" where
  "checkFilesForMissing env recPath fs table recordId st =
     (when_running
        (forEach (\<lambda>file s. if \<not> SNFileExists env recPath file
                            then markFileMissing (runtime env) table recordId file s else Inr s) fs)
        (fst st),
      snd st @ map (Call_SNFileExists recPath) fs)"

text \<open>
  \<open>checkRecord\<close> and \<open>checkTable\<close> are the bodies of the \<open>async (check, index)\<close>
  closures of \<open>checkRecordsForMissing\<close> and \<open>checkTablesForMissing\<close>, for the
  entry \<open>(recNames[index], records[recNames[index]])\<close>, respectively
  \<open>(tableNames[index], tables[tableNames[index]])\<close>.
\<close>

definition checkRecord ::
  "'b fs_env \<Rightarrow> path \<Rightarrow> string \<Rightarrow> string \<times> MetaRecord \<Rightarrow> 'b detection \<Rightarrow> 'b detection" where
  "checkRecord env tablePath table entry s =
     (let recPath = appendToPath tablePath (fst entry); record = snd entry
      in if \<not> pathExists env recPath
         then (when_running (markRecordMissing (runtime env) record table) (fst s), snd s)
         else checkFilesForMissing env recPath (files record) table (sys_id record) s)"

definition checkRecordsForMissing ::
  "'b fs_env \<Rightarrow> path \<Rightarrow> MetaRecord obj \<Rightarrow> string \<Rightarrow> 'b detection \<Rightarrow> 'b detection" where
  "checkRecordsForMissing env tablePath recs table st =
     (let recNames = keys recs;
          recPaths = map (appendToPath tablePath) recNames
      in fold (checkRecord env tablePath table) recs
           (fst st, snd st @ map Call_pathExists recPaths))"

definition checkTable ::
  "'b fs_env \<Rightarrow> path \<Rightarrow> string \<times> TableConfig \<Rightarrow> 'b detection \<Rightarrow> 'b detection" where
  "checkTable env topPath entry s =
     (let tabName = fst entry; tablePath = appendToPath topPath tabName
      in if \<not> pathExists env tablePath
         then (when_running (markTableMissing (runtime env) (snd entry) tabName) (fst s), snd s)
         else checkRecordsForMissing env tablePath (records (snd entry)) tabName s)"

definition checkTablesForMissing ::
  "'b fs_env \<Rightarrow> path \<Rightarrow> TableConfig obj \<Rightarrow> 'b detection \<Rightarrow> 'b detection" where
  "checkTablesForMissing env topPath tabs st =
     (let tableNames = keys tabs;
          tablePaths = map (appendToPath topPath) tableNames
      in fold (checkTable env topPath) tabs
           (fst st, snd st @ map Call_pathExists tablePaths))"

text \<open>
  \<open>findMissingFiles\<close> starts from \<open>missing = {}\<close> and the built-in objects
  as the environment has them, and resolves to \<open>missing\<close> or rejects.
\<close>

definition findMissingFiles ::
  "'b fs_env \<Rightarrow> AppManifest \<Rightarrow> (Error + MissingFileTableMap) \<times> fs_call list" where
  "findMissingFiles env manifest =
     (case checkTablesForMissing env (sourcePath env) (tables manifest)
             (Inr ([], builtins env), []) of
        (outcome, probes) \<Rightarrow> (map_sum id fst outcome, probes))"

subsection \<open>Fetching and writing the missing files\<close>

definition processMissingFiles :: "'b fs_env \<Rightarrow> AppManifest \<Rightarrow> (Error + unit) \<times> fs_call list" where
  "processMissingFiles env newManifest =
     (case findMissingFiles env newManifest of
        (Inl e, probes) \<Rightarrow> (Inl e, probes)
      | (Inr missing, probes) \<Rightarrow>
          (case getMissingFiles env missing of
             Inl e \<Rightarrow> (Inl e, probes @ [Call_getMissingFiles missing])
           | Inr filesToProcess \<Rightarrow>
               (case processTablesInManifest env filesToProcess False of
                  (ok, tabs, calls) \<Rightarrow>
                    (if ok then Inr () else Inl FilesystemError,
                     probes @ [Call_getMissingFiles missing] @ calls))))"

section \<open>File tree builder\<close>

text \<open>
  \<open>fillIfNotExists\<close> is the statement \<open>if (!rec[key]) rec[key] = {}\<close>.
  \<open>groupStep\<close> is the reducer of \<open>groupAppFiles\<close>, on the tree and the state
  of the built-in objects. When \<open>tableName\<close> is not an own key of the tree
  and is not filled in, \<open>tree[tableName]\<close> is an inherited value and the
  reducer goes on with that value; likewise for \<open>sys_id\<close> in the table's
  object. The last assignment \<open>tree[tableName][sys_id][targetField] = cur\<close>
  replaces an own property or adds one, unless the field is not assignable:
  then the record keeps the fields it has. The file contexts are plain data
  objects, so a record whose prototype such an assignment has set inherits no
  setter from it.
\<close>

definition fillIfNotExists :: "'b js_runtime \<Rightarrow> 'b \<Rightarrow> 'v list obj \<Rightarrow> string \<Rightarrow> 'v list obj option" where
  "fillIfNotExists rt b rec key = assign_if_falsy rt b rec key"

definition groupStep ::
  "'b js_runtime \<Rightarrow> FileContext \<Rightarrow> AppFileContextTree \<times> 'b \<Rightarrow> Error + AppFileContextTree \<times> 'b" where
  "groupStep rt cur st =
     (let tree = fst st; b = snd st
      in case fillIfNotExists rt b tree (tableName cur) of
           None \<Rightarrow> map_sum id (Pair tree) (builtin_step rt b (Grouping Table_level cur))
         | Some tree1 \<Rightarrow>
             (case fillIfNotExists rt b (lookup_obj tree1 (tableName cur)) (ctx_sys_id cur) of
                None \<Rightarrow> map_sum id (Pair tree1) (builtin_step rt b (Grouping Record_level cur))
              | Some tab1 \<Rightarrow>
                  (let recMap = lookup_obj tab1 (ctx_sys_id cur)
                   in if map_of recMap (targetField cur) \<noteq> None \<or> assignable rt b (targetField cur)
                      then Inr (AList.update (tableName cur)
                                  (AList.update (ctx_sys_id cur)
                                     (AList.update (targetField cur) cur recMap) tab1) tree1, b)
                      else map_sum id (Pair (AList.update (tableName cur) tab1 tree1))
                             (builtin_step rt b (Grouping Field_level cur)))))"

text \<open>
  \<open>groupAppFiles\<close> reduces from \<open>{}\<close>; it returns the tree, and the model
  returns with it the state in which the run leaves the built-in objects.
\<close>

definition groupAppFiles ::
  "'b js_runtime \<Rightarrow> 'b \<Rightarrow> FileContext list \<Rightarrow> Error + AppFileContextTree \<times> 'b" where
  "groupAppFiles rt b fileCtxs = forEach (groupStep rt) fileCtxs ([], b)"

definition countRecsInTree :: "AppFileContextTree \<Rightarrow> nat" where
  "countRecsInTree tree = fold (\<lambda>entry acc. acc + length (keys (snd entry))) tree 0"

section \<open>Build pipeline\<close>

text \<open>
  The outcome of a settled promise, as \<open>allSettled\<close> tags it: status
  \<open>"fulfilled"\<close> with a value or \<open>"rejected"\<close> with a reason.
\<close>

datatype 'a PromiseResult = Fulfilled (settled: 'a) | Rejected (reason: Error)

fun is_rejected :: "'a PromiseResult \<Rightarrow> bool" where
  "is_rejected (Rejected r) = True"
| "is_rejected (Fulfilled v) = False"

text \<open>
  Modelled from the spec: \<open>allSettled\<close> of \<open>genericUtils\<close>, the settle-all wait
  that "waits for every outcome, converting failures into tagged data"; the
  outcome at position \<open>i\<close> is that of promise \<open>i\<close>.
\<close>

definition allSettled :: "(Error + 'a) list \<Rightarrow> 'a PromiseResult list" where
  "allSettled promises = map (case_sum Rejected Fulfilled) promises"

text \<open>The template literal \<open>`${index}`\<close>: a number in decimal.\<close>

function string_of_nat :: "nat \<Rightarrow> string" where
  "string_of_nat n =
     (if n < 10 then [''0123456789'' ! n]
      else string_of_nat (n div 10) @ [''0123456789'' ! (n mod 10)])"
  by pat_completeness auto
termination
  by (relation "measure id") auto

declare string_of_nat.simps [simp del]

record PushResult =
  success :: bool
  message :: string

text \<open>
  The collaborators of the build and push pipeline, which are not part of the
  module. A promise's outcome is \<open>Inl\<close> of the rejection or \<open>Inr\<close> of the value.
  \<open>updateRecord table sysId fields k\<close> is the outcome of the \<open>k\<close>-th call of the
  thunk \<open>() => client.updateRecord(table, sysId, fields)\<close> that \<open>retryOnErr\<close>
  receives with the retry limit and wait; the notification callback only logs.
\<close>

record 'r push_env =
  getFinalFileContents :: "FileContext \<Rightarrow> Error + string"
  aggregateErrorMessages :: "Error list \<Rightarrow> string \<Rightarrow> (Error \<Rightarrow> nat \<Rightarrow> string) \<Rightarrow> string"
  getLogLevel :: string
  updateRecord :: "string \<Rightarrow> string \<Rightarrow> string obj \<Rightarrow> nat \<Rightarrow> Error + 'r"
  retryOnErr :: "(nat \<Rightarrow> Error + 'r) \<Rightarrow> nat \<Rightarrow> nat \<Rightarrow> Error + 'r"
  processPushResponse :: "'r \<Rightarrow> string \<Rightarrow> Error + PushResult"
  PUSH_RETRY_LIMIT :: nat
  PUSH_RETRY_WAIT :: nat

definition buildRec :: "'r push_env \<Rightarrow> RecordContextMap \<Rightarrow> Error + string obj" where
  "buildRec env rec =
     (let fields = keys rec;
          buildPromises = map (\<lambda>entry. getFinalFileContents env (snd entry)) rec;
          builtFiles = allSettled buildPromises;
          buildSuccess = (find is_rejected builtFiles = None)
      in if \<not> buildSuccess
         then Inl (Error (aggregateErrorMessages env
                 (map reason (filter is_rejected builtFiles))
                 ''Failed to build!''
                 (\<lambda>_ index. string_of_nat index)))
         else Inr (fold (\<lambda>built acc. AList.update (fields ! snd built) (settled (fst built)) acc)
                     (zip builtFiles [0..<length builtFiles]) []))"

section \<open>Push orchestrator\<close>

definition summarizeRecord :: "string \<Rightarrow> string \<Rightarrow> string" where
  "summarizeRecord table recDescriptor = table @ '' > '' @ recDescriptor"

text \<open>
  \<open>getProgTick\<close> returns a closure over a fresh progress bar at log level
  \<open>"info"\<close> and \<open>undefined\<close> otherwise. The closure is identified with the bar
  it advances: \<open>curr\<close> counts the calls of \<open>tick()\<close>.
\<close>

record ProgressBar =
  total :: nat
  curr :: nat

definition getProgTick :: "string \<Rightarrow> nat \<Rightarrow> ProgressBar option" where
  "getProgTick logLevel n =
     (if logLevel = ''info'' then Some \<lparr>total = n, curr = 0\<rparr> else None)"

definition call_tick :: "ProgressBar option \<Rightarrow> ProgressBar option" where
  "call_tick tick = map_option (\<lambda>progBar. progBar\<lparr>curr := curr progBar + 1\<rparr>) tick"

text \<open>
  \<open>Promise.all\<close>: the promises settle in some order, here by the instant
  \<open>time i\<close> at which promise \<open>i\<close> settles. It rejects with the first rejection
  to arrive and otherwise resolves to the array in which slot \<open>i\<close> holds the
  value of promise \<open>i\<close>.
\<close>

definition completion_order :: "(nat \<Rightarrow> nat) \<Rightarrow> nat \<Rightarrow> nat list" where
  "completion_order time n = sort_key time [0..<n]"

fun settle :: "(Error + 'a) list \<Rightarrow> nat list \<Rightarrow> 'a option list \<Rightarrow> Error + 'a option list" where
  "settle ps [] slots = Inr slots"
| "settle ps (i # rest) slots =
     (case ps ! i of Inl e \<Rightarrow> Inl e | Inr v \<Rightarrow> settle ps rest (slots[i := Some v]))"

definition Promise_all :: "(nat \<Rightarrow> nat) \<Rightarrow> (Error + 'a) list \<Rightarrow> Error + 'a list" where
  "Promise_all time ps =
     (case settle ps (completion_order time (length ps)) (replicate (length ps) None) of
        Inl e \<Rightarrow> Inl e
      | Inr slots \<Rightarrow> Inr (map the slots))"

definition TypeError :: Error where
  "TypeError = Error ''Cannot read property name of undefined''"

definition pushFailure :: "string \<Rightarrow> Error \<Rightarrow> PushResult" where
  "pushFailure recSummary e =
     (let errMsg = (if error_message e \<noteq> [] then error_message e else ''Too many retries'')
      in \<lparr>success = False, message = recSummary @ '' : '' @ errMsg\<rparr>)"

text \<open>
  The body of the \<open>async (buildRes, index)\<close> closure of \<open>buildAndPush\<close> for the
  record \<open>entry = (recIds[index], tableTree[recIds[index]])\<close>.
  \<open>recMap[recFields[0]].name\<close> throws a TypeError when the record has no
  field. The \<open>finally\<close> block, and with it \<open>tick()\<close>, belongs to the \<open>try\<close> around
  the push only: the return for a rejected build comes before it.
\<close>

definition pushRecord ::
  "'r push_env \<Rightarrow> string \<Rightarrow> string \<times> RecordContextMap \<Rightarrow> string obj PromiseResult \<Rightarrow>
   ProgressBar option \<Rightarrow> (Error + PushResult) \<times> ProgressBar option" where
  "pushRecord env table entry buildRes tick =
     (case snd entry of
        [] \<Rightarrow> (Inl TypeError, tick)
      | first # _ \<Rightarrow>
          (let recDesc = (if ctx_name (snd first) \<noteq> [] then ctx_name (snd first) else fst entry);
               recSummary = summarizeRecord table recDesc
           in case buildRes of
                Rejected r \<Rightarrow>
                  (Inr \<lparr>success = False, message = recSummary @ '' : '' @ error_message r\<rparr>, tick)
              | Fulfilled built \<Rightarrow>
                  (case retryOnErr env (updateRecord env table (fst entry) built)
                          (PUSH_RETRY_LIMIT env) (PUSH_RETRY_WAIT env) of
                     Inl e \<Rightarrow> (Inr (pushFailure recSummary e), call_tick tick)
                   | Inr res \<Rightarrow>
                       (case processPushResponse env res recSummary of
                          Inl e \<Rightarrow> (Inr (pushFailure recSummary e), call_tick tick)
                        | Inr pushed \<Rightarrow> (Inr pushed, call_tick tick)))))"

text \<open>The closures of one table run in enumeration order, passing the progress bar along.\<close>

fun pushRecords ::
  "'r push_env \<Rightarrow> string \<Rightarrow> ((string \<times> RecordContextMap) \<times> string obj PromiseResult) list \<Rightarrow>
   ProgressBar option \<Rightarrow> (Error + PushResult) list \<times> ProgressBar option" where
  "pushRecords env table [] tick = ([], tick)"
| "pushRecords env table (x # xs) tick =
     (case pushRecord env table (fst x) (snd x) tick of
        (r, tick1) \<Rightarrow>
          (case pushRecords env table xs tick1 of
             (rs, tick2) \<Rightarrow> (r # rs, tick2)))"

text \<open>
  The instants at which the promises of a push settle: \<open>tableDone i\<close> for the
  \<open>buildAndPush\<close> of table \<open>i\<close>, \<open>recordDone table i\<close> for the push closure of
  record \<open>i\<close> of a table.
\<close>

record timing =
  tableDone :: "nat \<Rightarrow> nat"
  recordDone :: "string \<Rightarrow> nat \<Rightarrow> nat"

definition buildAndPush ::
  "'r push_env \<Rightarrow> timing \<Rightarrow> string \<Rightarrow> TableContextTree \<Rightarrow> ProgressBar option \<Rightarrow>
   (Error + PushResult list) \<times> ProgressBar option" where
  "buildAndPush env tm table tableTree tick =
     (let buildPromises = map (\<lambda>entry. buildRec env (snd entry)) tableTree;
          builtRecs = allSettled buildPromises
      in case pushRecords env table (zip tableTree builtRecs) tick of
           (pushPromises, tick1) \<Rightarrow> (Promise_all (recordDone tm table) pushPromises, tick1))"

fun buildAndPushTables ::
  "'r push_env \<Rightarrow> timing \<Rightarrow> AppFileContextTree \<Rightarrow> ProgressBar option \<Rightarrow>
   (Error + PushResult list) list \<times> ProgressBar option" where
  "buildAndPushTables env tm [] tick = ([], tick)"
| "buildAndPushTables env tm (x # xs) tick =
     (case buildAndPush env tm (fst x) (snd x) tick of
        (r, tick1) \<Rightarrow>
          (case buildAndPushTables env tm xs tick1 of
             (rs, tick2) \<Rightarrow> (r # rs, tick2)))"

definition pushFiles ::
  "'r push_env \<Rightarrow> timing \<Rightarrow> AppFileContextTree \<Rightarrow> nat \<Rightarrow>
   (Error + PushResult list) \<times> ProgressBar option" where
  "pushFiles env tm appFileTree recordCount =
     (let tick = getProgTick (getLogLevel env) recordCount
      in case buildAndPushTables env tm appFileTree tick of
           (buildAndPushPromises, tick1) \<Rightarrow>
             (case Promise_all (tableDone tm) buildAndPushPromises of
                Inl e \<Rightarrow> (Inl e, tick1)
              | Inr tablePushResults \<Rightarrow> (Inr (concat tablePushResults), tick1)))"

section \<open>Scope guard and update set manager\<close>

text \<open>
  The remote operations of the client. \<open>respond env history call\<close> is what the
  call yields after the calls of \<open>history\<close> were made, already passed through
  \<open>processSimpleResponse\<close> where the source wraps it: \<open>Inl\<close> when the call
  fails, otherwise the extracted field (a sys_id, empty when there is no
  record; the \<open>scope\<close> of the scope object). Every call is appended to the
  trace, so the functions below take the trace and return it extended.
\<close>

datatype remote_call =
    GetScopeId string
  | GetCurrentScope
  | GetUserSysId
  | GetCurrentAppUserPrefSysId string
  | UpdateCurrentAppUserPref string string
  | CreateCurrentAppUserPref string string
  | CreateUpdateSet string
  | GetCurrentUpdateSetUserPref string
  | UpdateCurrentUpdateSetUserPref string string
  | CreateCurrentUpdateSetUserPref string string

fun is_mutation :: "remote_call \<Rightarrow> bool" where
  "is_mutation (UpdateCurrentAppUserPref a b) = True"
| "is_mutation (CreateCurrentAppUserPref a b) = True"
| "is_mutation (CreateUpdateSet a) = True"
| "is_mutation (UpdateCurrentUpdateSetUserPref a b) = True"
| "is_mutation (CreateCurrentUpdateSetUserPref a b) = True"
| "is_mutation c = False"

record remote_env =
  respond :: "remote_call list \<Rightarrow> remote_call \<Rightarrow> Error + string"

definition remote ::
  "remote_env \<Rightarrow> remote_call \<Rightarrow> remote_call list \<Rightarrow> (Error + string) \<times> remote_call list" where
  "remote env c trace = (respond env trace c, trace @ [c])"

record ScopeObj =
  scopeObj_scope :: string

record ScopeCheckResult =
  match :: bool
  sessionScope :: string
  manifestScope :: string

definition swapServerScope ::
  "remote_env \<Rightarrow> string \<Rightarrow> remote_call list \<Rightarrow> (Error + unit) \<times> remote_call list" where
  "swapServerScope env scopeId trace =
     (case remote env GetUserSysId trace of
        (Inl e, t1) \<Rightarrow> (Inl e, t1)
      | (Inr userSysId, t1) \<Rightarrow>
          (case remote env (GetCurrentAppUserPrefSysId userSysId) t1 of
             (Inl e, t2) \<Rightarrow> (Inl e, t2)
           | (Inr curAppUserPrefId, t2) \<Rightarrow>
               (case (if curAppUserPrefId \<noteq> []
                      then remote env (UpdateCurrentAppUserPref scopeId curAppUserPrefId) t2
                      else remote env (CreateCurrentAppUserPref scopeId userSysId) t2) of
                  (Inl e, t3) \<Rightarrow> (Inl e, t3)
                | (Inr _, t3) \<Rightarrow> (Inr (), t3))))"

definition swapScope ::
  "remote_env \<Rightarrow> string \<Rightarrow> remote_call list \<Rightarrow> (Error + ScopeObj) \<times> remote_call list" where
  "swapScope env currentScope trace =
     (case remote env (GetScopeId currentScope) trace of
        (Inl e, t1) \<Rightarrow> (Inl e, t1)
      | (Inr scopeId, t1) \<Rightarrow>
          (case swapServerScope env scopeId t1 of
             (Inl e, t2) \<Rightarrow> (Inl e, t2)
           | (Inr _, t2) \<Rightarrow>
               (case remote env GetCurrentScope t2 of
                  (Inl e, t3) \<Rightarrow> (Inl e, t3)
                | (Inr s, t3) \<Rightarrow> (Inr \<lparr>scopeObj_scope = s\<rparr>, t3))))"

text \<open>The returned \<open>{name, id}\<close> is the pair of the two.\<close>

definition createAndAssignUpdateSet ::
  "remote_env \<Rightarrow> string \<Rightarrow> remote_call list \<Rightarrow>
   (Error + string \<times> string) \<times> remote_call list" where
  "createAndAssignUpdateSet env updateSetName trace =
     (case remote env (CreateUpdateSet updateSetName) trace of
        (Inl e, t1) \<Rightarrow> (Inl e, t1)
      | (Inr updateSetSysId, t1) \<Rightarrow>
          (case remote env GetUserSysId t1 of
             (Inl e, t2) \<Rightarrow> (Inl e, t2)
           | (Inr userSysId, t2) \<Rightarrow>
               (case remote env (GetCurrentUpdateSetUserPref userSysId) t2 of
                  (Inl e, t3) \<Rightarrow> (Inl e, t3)
                | (Inr curUpdateSetUserPrefId, t3) \<Rightarrow>
                    (case (if curUpdateSetUserPrefId \<noteq> []
                           then remote env
                                  (UpdateCurrentUpdateSetUserPref updateSetSysId curUpdateSetUserPrefId) t3
                           else remote env
                                  (CreateCurrentUpdateSetUserPref updateSetSysId userSysId) t3) of
                       (Inl e, t4) \<Rightarrow> (Inl e, t4)
                     | (Inr _, t4) \<Rightarrow> (Inr (updateSetName, updateSetSysId), t4)))))"

text \<open>\<open>ConfigManager.getManifest()\<close> is the argument \<open>man\<close>, \<open>None\<close> before the first download.\<close>

definition checkScope ::
  "remote_env \<Rightarrow> AppManifest option \<Rightarrow> bool \<Rightarrow> remote_call list \<Rightarrow>
   (Error + ScopeCheckResult) \<times> remote_call list" where
  "checkScope env man swap trace =
     (case man of
        None \<Rightarrow> (Inr \<lparr>match = True, sessionScope = [], manifestScope = []\<rparr>, trace)
      | Some m \<Rightarrow>
          (case remote env GetCurrentScope trace of
             (Inl e, t1) \<Rightarrow> (Inl e, t1)
           | (Inr s, t1) \<Rightarrow>
               (if s = scope m
                then (Inr \<lparr>match = True, sessionScope = s, manifestScope = scope m\<rparr>, t1)
                else if swap
                then (case swapScope env (scope m) t1 of
                        (Inl e, t2) \<Rightarrow> (Inl e, t2)
                      | (Inr swappedScopeObj, t2) \<Rightarrow>
                          (Inr \<lparr>match = (scopeObj_scope swappedScopeObj = scope m),
                                sessionScope = scopeObj_scope swappedScopeObj,
                                manifestScope = scope m\<rparr>, t2))
                else (Inr \<lparr>match = False, sessionScope = s, manifestScope = scope m\<rparr>, t1))))"

section \<open>The functions on ordinary property names\<close>

text \<open>
  A name is ordinary when an object made with \<open>{}\<close> inherits nothing truthy
  under it and an assignment to it adds an own property. As long as every
  table name and record id is ordinary, \<open>markFileMissing\<close> and the
  functions of the detector never touch a built-in object and never throw,
  and what they do to the missing-file object and to the log is what the
  functions \<open>own_markFileMissing\<close> to \<open>own_findMissingFiles\<close> compute on
  own properties alone. The same holds of \<open>groupAppFiles\<close> and
  \<open>own_groupAppFiles\<close> when the target fields are assignable as well. The
  lemmas \<open>markFileMissing_ordinary\<close>, \<open>findMissingFiles_ordinary\<close> and
  \<open>groupAppFiles_ordinary\<close> prove this; the functions serve the proofs and
  stand for no function of the module.
\<close>

definition ordinary :: "'b js_runtime \<Rightarrow> 'b \<Rightarrow> string \<Rightarrow> bool" where
  "ordinary rt b k = (\<not> reads_truthy rt b k \<and> assignable rt b k)"


definition own_markFileMissing ::
  "MissingFileTableMap \<Rightarrow> string \<Rightarrow> string \<Rightarrow> File \<Rightarrow> MissingFileTableMap" where
  "own_markFileMissing missingObj table recordId file =
     (let m1 = (if map_of missingObj table = None then AList.update table [] missingObj
                else missingObj);
          tab = (case map_of m1 table of None \<Rightarrow> [] | Some t \<Rightarrow> t);
          tab1 = (if map_of tab recordId = None then AList.update recordId [] tab else tab);
          listed = (case map_of tab1 recordId of None \<Rightarrow> [] | Some l \<Rightarrow> l)
      in AList.update table (AList.update recordId (listed @ [(name file, type file)]) tab1) m1)"

definition own_markRecordMissing ::
  "MetaRecord \<Rightarrow> string \<Rightarrow> MissingFileTableMap \<Rightarrow> MissingFileTableMap" where
  "own_markRecordMissing record table missingObj =
     fold (\<lambda>file m. own_markFileMissing m table (sys_id record) file) (files record) missingObj"

definition own_markTableMissing ::
  "TableConfig \<Rightarrow> string \<Rightarrow> MissingFileTableMap \<Rightarrow> MissingFileTableMap" where
  "own_markTableMissing table tabName missingObj =
     fold (\<lambda>entry m. own_markRecordMissing (snd entry) tabName m) (records table) missingObj"

definition own_checkFilesForMissing ::
  "'b fs_env \<Rightarrow> path \<Rightarrow> File list \<Rightarrow> string \<Rightarrow> string \<Rightarrow>
   MissingFileTableMap \<times> fs_call list \<Rightarrow> MissingFileTableMap \<times> fs_call list" where
  "own_checkFilesForMissing env recPath fs table recordId st =
     (fold (\<lambda>file m. if \<not> SNFileExists env recPath file
                      then own_markFileMissing m table recordId file else m) fs (fst st),
      snd st @ map (Call_SNFileExists recPath) fs)"

definition own_checkRecord ::
  "'b fs_env \<Rightarrow> path \<Rightarrow> string \<Rightarrow> string \<times> MetaRecord \<Rightarrow>
   MissingFileTableMap \<times> fs_call list \<Rightarrow> MissingFileTableMap \<times> fs_call list" where
  "own_checkRecord env tablePath table entry s =
     (let recPath = appendToPath tablePath (fst entry); record = snd entry
      in if \<not> pathExists env recPath
         then (own_markRecordMissing record table (fst s), snd s)
         else own_checkFilesForMissing env recPath (files record) table (sys_id record) s)"

definition own_checkRecordsForMissing ::
  "'b fs_env \<Rightarrow> path \<Rightarrow> MetaRecord obj \<Rightarrow> string \<Rightarrow>
   MissingFileTableMap \<times> fs_call list \<Rightarrow> MissingFileTableMap \<times> fs_call list" where
  "own_checkRecordsForMissing env tablePath recs table st =
     (let recNames = keys recs;
          recPaths = map (appendToPath tablePath) recNames
      in fold (own_checkRecord env tablePath table) recs
           (fst st, snd st @ map Call_pathExists recPaths))"

definition own_checkTable ::
  "'b fs_env \<Rightarrow> path \<Rightarrow> string \<times> TableConfig \<Rightarrow>
   MissingFileTableMap \<times> fs_call list \<Rightarrow> MissingFileTableMap \<times> fs_call list" where
  "own_checkTable env topPath entry s =
     (let tabName = fst entry; tablePath = appendToPath topPath tabName
      in if \<not> pathExists env tablePath
         then (own_markTableMissing (snd entry) tabName (fst s), snd s)
         else own_checkRecordsForMissing env tablePath (records (snd entry)) tabName s)"

definition own_checkTablesForMissing ::
  "'b fs_env \<Rightarrow> path \<Rightarrow> TableConfig obj \<Rightarrow>
   MissingFileTableMap \<times> fs_call list \<Rightarrow> MissingFileTableMap \<times> fs_call list" where
  "own_checkTablesForMissing env topPath tabs st =
     (let tableNames = keys tabs;
          tablePaths = map (appendToPath topPath) tableNames
      in fold (own_checkTable env topPath) tabs
           (fst st, snd st @ map Call_pathExists tablePaths))"

definition own_findMissingFiles :: "'b fs_env \<Rightarrow> AppManifest \<Rightarrow> MissingFileTableMap \<times> fs_call list" where
  "own_findMissingFiles env manifest =
     own_checkTablesForMissing env (sourcePath env) (tables manifest) ([], [])"

definition own_fillIfNotExists :: "'v list obj \<Rightarrow> string \<Rightarrow> 'v list obj" where
  "own_fillIfNotExists rec key = (if map_of rec key = None then AList.update key [] rec else rec)"

definition own_groupStep :: "FileContext \<Rightarrow> AppFileContextTree \<Rightarrow> AppFileContextTree" where
  "own_groupStep cur tree =
     (let tree1 = own_fillIfNotExists tree (tableName cur);
          tab1 = own_fillIfNotExists (lookup_obj tree1 (tableName cur)) (ctx_sys_id cur);
          recMap = AList.update (targetField cur) cur (lookup_obj tab1 (ctx_sys_id cur))
      in AList.update (tableName cur) (AList.update (ctx_sys_id cur) recMap tab1) tree1)"

definition own_groupAppFiles :: "FileContext list \<Rightarrow> AppFileContextTree" where
  "own_groupAppFiles fileCtxs = fold own_groupStep fileCtxs []"

section \<open>Vocabulary of the statements\<close>

text \<open>
  What a run of the manifest writer depends on: whether the record
  directories of a table could be created, whether every file of a record
  could be written, and what the in-memory tree looks like afterwards. A
  record is stripped of its contents when its own writes all succeeded and
  the directories of its table were created.
\<close>

definition strip_record :: "MetaRecord \<Rightarrow> MetaRecord" where
  "strip_record r = r\<lparr>files := map deleteContent (files r)\<rparr>"

definition record_written :: "'b fs_env \<Rightarrow> bool \<Rightarrow> path \<Rightarrow> string \<times> MetaRecord \<Rightarrow> bool" where
  "record_written env forceWrite tablePath entry =
     list_all (\<lambda>file. writeSNFile env forceWrite file (recKeyToPath tablePath entry)) (files (snd entry))"

definition dirs_created :: "'b fs_env \<Rightarrow> path \<Rightarrow> TableConfig \<Rightarrow> bool" where
  "dirs_created env tablePath table =
     list_all (\<lambda>entry. createDirRecursively env (recKeyToPath tablePath entry)) (records table)"

definition table_written :: "'b fs_env \<Rightarrow> bool \<Rightarrow> string \<times> TableConfig \<Rightarrow> bool" where
  "table_written env forceWrite entry =
     (dirs_created env (path_join (sourcePath env) (fst entry)) (snd entry) \<and>
      list_all (record_written env forceWrite (path_join (sourcePath env) (fst entry)))
        (records (snd entry)))"

definition all_written :: "'b fs_env \<Rightarrow> bool \<Rightarrow> TableConfig obj \<Rightarrow> bool" where
  "all_written env forceWrite tabs = list_all (table_written env forceWrite) tabs"

definition record_after :: "'b fs_env \<Rightarrow> bool \<Rightarrow> path \<Rightarrow> string \<times> MetaRecord \<Rightarrow> string \<times> MetaRecord" where
  "record_after env forceWrite tablePath entry =
     (fst entry, if record_written env forceWrite tablePath entry
                 then strip_record (snd entry) else snd entry)"

definition table_after :: "'b fs_env \<Rightarrow> bool \<Rightarrow> string \<times> TableConfig \<Rightarrow> string \<times> TableConfig" where
  "table_after env forceWrite entry =
     (fst entry,
      if dirs_created env (path_join (sourcePath env) (fst entry)) (snd entry)
      then (snd entry)\<lparr>records :=
              map (record_after env forceWrite (path_join (sourcePath env) (fst entry)))
                (records (snd entry))\<rparr>
      else snd entry)"

definition strip_table :: "string \<times> TableConfig \<Rightarrow> string \<times> TableConfig" where
  "strip_table entry =
     (fst entry, (snd entry)\<lparr>records := map (\<lambda>r. (fst r, strip_record (snd r))) (records (snd entry))\<rparr>)"

definition strip_manifest :: "AppManifest \<Rightarrow> AppManifest" where
  "strip_manifest manifest = manifest\<lparr>tables := map strip_table (tables manifest)\<rparr>"

fun is_writeFileForce :: "fs_call \<Rightarrow> bool" where
  "is_writeFileForce (Call_writeFileForce p s) = True"
| "is_writeFileForce c = False"

fun is_forced_writeSNFile :: "fs_call \<Rightarrow> bool" where
  "is_forced_writeSNFile (Call_writeSNFile forceWrite f p) = forceWrite"
| "is_forced_writeSNFile c = False"

definition table_stage_calls :: "'b fs_env \<Rightarrow> TableConfig obj \<Rightarrow> bool \<Rightarrow> fs_call list" where
  "table_stage_calls env tabs forceWrite = snd (snd (processTablesInManifest env tabs forceWrite))"

fun is_probe :: "fs_call \<Rightarrow> bool" where
  "is_probe (Call_pathExists p) = True"
| "is_probe (Call_SNFileExists p f) = True"
| "is_probe c = False"










text \<open>
  What the statements about the file tree speak of. The key of a file
  context is its (table, sys_id, targetField). \<open>tree_view\<close> reads a tree as
  the nested mapping it is, table to record to field, forgetting the order in
  which \<open>Object.keys\<close> enumerates; two trees with the same view have the same
  keys with the same values at every level. \<open>wf_tree\<close>: the tree is a proper
  object at every level (no key twice), and no table and no record of it is
  empty. \<open>view_insert\<close> is what one step of the grouping does to the view.
  \<open>ordinary_contexts\<close>: the table name and the sys_id of every context are
  ordinary names, and its target field is assignable.
\<close>

definition ordinary_contexts :: "'b js_runtime \<Rightarrow> 'b \<Rightarrow> FileContext list \<Rightarrow> bool" where
  "ordinary_contexts rt b ctxs =
     list_all (\<lambda>c. ordinary rt b (tableName c) \<and> ordinary rt b (ctx_sys_id c) \<and>
                   assignable rt b (targetField c)) ctxs"





definition wf_record :: "string \<times> RecordContextMap \<Rightarrow> bool" where
  "wf_record r = (snd r \<noteq> [] \<and> distinct (keys (snd r)))"

definition wf_table :: "string \<times> TableContextTree \<Rightarrow> bool" where
  "wf_table t = (snd t \<noteq> [] \<and> distinct (keys (snd t)) \<and> list_all wf_record (snd t))"

definition wf_tree :: "AppFileContextTree \<Rightarrow> bool" where
  "wf_tree tree = (distinct (keys tree) \<and> list_all wf_table tree)"



text \<open>
  What the statements about a push speak of. \<open>build_settled\<close> is the settled
  build of a record, \<open>record_result\<close> what the push closure of a record
  resolves or rejects to (it does not depend on the progress bar),
  \<open>records_have_fields\<close> says that every record of the tree has at least one
  field, and \<open>reaches_push\<close> that a record has a field and its build
  succeeded, so that its closure enters the \<open>try\<close> block.
\<close>

definition build_settled :: "'r push_env \<Rightarrow> RecordContextMap \<Rightarrow> string obj PromiseResult" where
  "build_settled env recMap = case_sum Rejected Fulfilled (buildRec env recMap)"

definition record_result :: "'r push_env \<Rightarrow> string \<Rightarrow> string \<times> RecordContextMap \<Rightarrow> Error + PushResult" where
  "record_result env table entry =
     fst (pushRecord env table entry (build_settled env (snd entry)) None)"

definition records_have_fields :: "AppFileContextTree \<Rightarrow> bool" where
  "records_have_fields tree = list_all (\<lambda>t. list_all (\<lambda>r. snd r \<noteq> []) (snd t)) tree"

definition reaches_push :: "'r push_env \<Rightarrow> string \<times> RecordContextMap \<Rightarrow> bool" where
  "reaches_push env entry = (snd entry \<noteq> [] \<and> \<not> is_rejected (build_settled env (snd entry)))"

section \<open>Example inputs\<close>

text \<open>
  A small remote instance for the examples: the user \<open>u1\<close> starts in scope
  \<open>global\<close> with no scope preference and no update set preference; the
  identifier of scope \<open>s\<close> is \<open>id_s\<close>; creating a scope preference makes it
  \<open>pref1\<close>; the active scope is the one the preference was last pointed at.
\<close>

fun demo_scope_of :: "remote_call list \<Rightarrow> string" where
  "demo_scope_of [] = ''global''"
| "demo_scope_of (UpdateCurrentAppUserPref scopeId pref # cs) = drop 3 scopeId"
| "demo_scope_of (CreateCurrentAppUserPref scopeId user # cs) = drop 3 scopeId"
| "demo_scope_of (c # cs) = demo_scope_of cs"

fun demo_pref_of :: "remote_call list \<Rightarrow> string" where
  "demo_pref_of [] = []"
| "demo_pref_of (CreateCurrentAppUserPref scopeId user # cs) = ''pref1''"
| "demo_pref_of (c # cs) = demo_pref_of cs"

fun demo_respond :: "remote_call list \<Rightarrow> remote_call \<Rightarrow> Error + string" where
  "demo_respond history (GetScopeId s) = Inr (''id_'' @ s)"
| "demo_respond history GetCurrentScope = Inr (demo_scope_of (rev history))"
| "demo_respond history GetUserSysId = Inr ''u1''"
| "demo_respond history (GetCurrentAppUserPrefSysId u) = Inr (demo_pref_of (rev history))"
| "demo_respond history (CreateUpdateSet n) = Inr ''us1''"
| "demo_respond history c = Inr []"

definition demo_remote :: remote_env where
  "demo_remote = \<lparr>respond = demo_respond\<rparr>"

definition demo_scoped_manifest :: AppManifest where
  "demo_scoped_manifest = \<lparr>scope = ''x_app'', tables = []\<rparr>"

text \<open>
  A JavaScript runtime as far as the examples go. Its state is the list of
  the names that the run has added to \<open>Object.prototype\<close>. An object made
  with \<open>{}\<close> inherits a truthy value under the names \<open>Object.prototype\<close>
  comes with and under the added ones; every name but \<open>__proto__\<close> is
  assignable. Of the accesses to built-in objects it describes the five that
  the examples make, and answers every other one with an error of its own:

  \<^item> \<open>markFileMissing\<close> for the table \<open>constructor\<close> and the record \<open>abc\<close>:
    \<open>missingObj.constructor\<close> is the function \<open>Object\<close>, which has no
    property \<open>abc\<close>; the array is created on it and the entry pushed.

  \<^item> \<open>markFileMissing\<close> for a record \<open>constructor\<close> of a table that is an own
    key: \<open>missingObj[table].constructor\<close> is the function \<open>Object\<close>, which
    has no \<open>push\<close>; the call throws a TypeError.

  \<^item> the reducer of \<open>groupAppFiles\<close> for a context with sys_id \<open>__proto__\<close>
    and a table that is an own key: \<open>tree[tableName].__proto__\<close> is
    \<open>Object.prototype\<close>, which gets the property \<open>targetField\<close>; from then on
    every object inherits it.

  \<^item> the reducer for a context whose table name was added in that way and
    whose sys_id is \<open>x\<close>: \<open>tree[tableName]\<close> is the file context stored on
    \<open>Object.prototype\<close>, which has no property \<open>x\<close>; it gets \<open>x = {}\<close> and
    in it the field.

  \<^item> the reducer for a context with the target field \<open>__proto__\<close> whose table
    and sys_id are own keys: the assignment makes the context the prototype
    of the record's object and adds no property.
\<close>

definition inherited_names :: "string list" where
  "inherited_names =
     [''__proto__'', ''constructor'', ''hasOwnProperty'', ''isPrototypeOf'',
      ''propertyIsEnumerable'', ''toLocaleString'', ''toString'', ''valueOf'',
      ''__defineGetter__'', ''__defineSetter__'', ''__lookupGetter__'', ''__lookupSetter__'']"

definition demo_builtin_step :: "string list \<Rightarrow> builtin_access \<Rightarrow> Error + string list" where
  "demo_builtin_step b a =
     (case a of
        Marking lv table recordId entry \<Rightarrow>
          if lv = Table_level \<and> table = ''constructor'' \<and> recordId = ''abc'' then Inr b
          else if lv = Record_level \<and> recordId = ''constructor''
          then Inl (Error ''missingObj[table][recordId].push is not a function'')
          else Inl (Error ''not an access of the examples'')
      | Grouping lv c \<Rightarrow>
          if lv = Record_level \<and> ctx_sys_id c = ''__proto__'' \<and> targetField c \<noteq> ''__proto__''
          then Inr (targetField c # b)
          else if lv = Table_level \<and> tableName c \<in> set b \<and> ctx_sys_id c = ''x'' then Inr b
          else if lv = Field_level \<and> targetField c = ''__proto__'' then Inr b
          else Inl (Error ''not an access of the examples''))"

definition demo_runtime :: "string list js_runtime" where
  "demo_runtime =
     \<lparr>reads_truthy = (\<lambda>b k. k \<in> set inherited_names \<or> k \<in> set b),
      assignable = (\<lambda>b k. k \<noteq> ''__proto__''),
      builtin_step = demo_builtin_step\<rparr>"

text \<open>
  A manifest with one table and one record whose file can be written, and one
  with a second record whose file \<open>bad\<close> cannot. On the example disk only the
  table directory exists, so every declared file is missing; the remote
  answers a request for missing files with the fragment \<open>demo_fragment\<close>.
\<close>

definition demo_file_a :: File where
  "demo_file_a = \<lparr>name = ''a'', type = ''js'', content = Some ''x''\<rparr>"

definition demo_file_bad :: File where
  "demo_file_bad = \<lparr>name = ''bad'', type = ''js'', content = Some ''y''\<rparr>"

definition demo_rec_one :: MetaRecord where
  "demo_rec_one = \<lparr>sys_id = ''1'', rec_name = ''one'', files = [demo_file_a]\<rparr>"

definition demo_rec_two :: MetaRecord where
  "demo_rec_two = \<lparr>sys_id = ''2'', rec_name = ''two'', files = [demo_file_bad]\<rparr>"

definition demo_manifest :: AppManifest where
  "demo_manifest =
     \<lparr>scope = ''x_app'', tables = [(''sys_script'', \<lparr>records = [(''one'', demo_rec_one)]\<rparr>)]\<rparr>"

definition demo_manifest_bad :: AppManifest where
  "demo_manifest_bad =
     \<lparr>scope = ''x_app'',
      tables = [(''sys_script'', \<lparr>records = [(''one'', demo_rec_one), (''two'', demo_rec_two)]\<rparr>)]\<rparr>"

definition demo_fragment :: "TableConfig obj" where
  "demo_fragment = [(''sys_script'', \<lparr>records = [(''one'', demo_rec_one)]\<rparr>)]"

definition demo_fs :: "string list fs_env" where
  "demo_fs =
     \<lparr>sourcePath = [''src''],
      manifestPath = [''sinc.manifest.json''],
      createDirRecursively = (\<lambda>p. True),
      writeSNFile = (\<lambda>forceWrite file p. name file \<noteq> ''bad''),
      writeFileForce = (\<lambda>p s. True),
      JSON_stringify = (\<lambda>manifest indent. scope manifest),
      pathExists = (\<lambda>p. p = [''src'', ''sys_script'']),
      SNFileExists = (\<lambda>p file. False),
      getMissingFiles = (\<lambda>missing. Inr demo_fragment),
      runtime = demo_runtime,
      builtins = []\<rparr>"

definition contents_of :: "AppManifest \<Rightarrow> string option list list list" where
  "contents_of manifest =
     map (\<lambda>t. map (\<lambda>r. map content (files (snd r))) (records (snd t))) (tables manifest)"




definition demo_manifest_constructor_id :: AppManifest where
  "demo_manifest_constructor_id =
     \<lparr>scope = ''x_app'',
      tables = [(''sys_ui_page'',
                 \<lparr>records = [(''two'', \<lparr>sys_id = ''constructor'', rec_name = ''two'',
                                         files = [demo_file_a]\<rparr>)]\<rparr>)]\<rparr>"


text \<open>Two file contexts of different tables; the transformer will fail on the second.\<close>

definition demo_ctx_ok :: FileContext where
  "demo_ctx_ok = \<lparr>tableName = ''sys_script'', ctx_sys_id = ''abc'', targetField = ''script'',
       ctx_name = ''ok.js'', fileContents = ''let x = 1''\<rparr>"

definition demo_ctx_bad :: FileContext where
  "demo_ctx_bad = \<lparr>tableName = ''sys_ui_page'', ctx_sys_id = ''def'', targetField = ''html'',
       ctx_name = ''bad.ts'', fileContents = ''syntax error''\<rparr>"



text \<open>
  Example collaborators of the push pipeline: the transformer fails on the
  content \<open>syntax error\<close>; the aggregator writes, for each error it is given,
  the label of its index in that list and its message; the log level is
  \<open>info\<close>; every push succeeds at the first attempt. \<open>demo_record\<close> has two
  fields, of which the second fails to build.
\<close>

definition demo_aggregate :: "Error list \<Rightarrow> string \<Rightarrow> (Error \<Rightarrow> nat \<Rightarrow> string) \<Rightarrow> string" where
  "demo_aggregate errs defaultMsg labelFn =
     concat (map (\<lambda>i. labelFn (errs ! i) i @ '': ''
                        @ (if error_message (errs ! i) \<noteq> [] then error_message (errs ! i) else defaultMsg)
                        @ ''; '')
               [0..<length errs])"

definition demo_push_env :: "string push_env" where
  "demo_push_env =
     \<lparr>getFinalFileContents =
        (\<lambda>ctx. if fileContents ctx = ''syntax error'' then Inl (Error ''boom'')
               else Inr (fileContents ctx)),
      aggregateErrorMessages = demo_aggregate,
      getLogLevel = ''info'',
      updateRecord = (\<lambda>table sysId built attempt. Inr ''ok''),
      retryOnErr = (\<lambda>thunk limit wait. thunk 0),
      processPushResponse = (\<lambda>res recSummary. Inr \<lparr>success = True, message = recSummary\<rparr>),
      PUSH_RETRY_LIMIT = 3,
      PUSH_RETRY_WAIT = 3000\<rparr>"

definition demo_record :: RecordContextMap where
  "demo_record =
     [(''script'', demo_ctx_ok),
      (''name'', demo_ctx_ok\<lparr>targetField := ''name'', fileContents := ''syntax error''\<rparr>)]"

definition demo_record_ok :: RecordContextMap where
  "demo_record_ok = [(''script'', demo_ctx_ok)]"

text \<open>
  Completion instants under which later promises settle first, and the tree
  of the two example contexts.
\<close>

definition demo_timing :: timing where
  "demo_timing = \<lparr>tableDone = (\<lambda>i. 10 - i), recordDone = (\<lambda>table i. 10 - i)\<rparr>"

definition demo_tree :: AppFileContextTree where
  "demo_tree = fst (projr (groupAppFiles demo_runtime [] [demo_ctx_ok, demo_ctx_bad]))"

section \<open>Unfolding the definitions on examples\<close>

lemmas demo_defs = demo_fs_def demo_fragment_def demo_manifest_def demo_manifest_bad_def demo_rec_one_def demo_rec_two_def
  demo_file_a_def demo_file_bad_def

lemmas writer_defs = processManifest_def processTablesInManifest_def processRecsInManTable_def
  processFilesInManRec_def recKeyToPath_def path_join_def deleteContent_def

lemmas runtime_defs = assign_if_falsy_def lookup_obj_def demo_runtime_def demo_builtin_step_def
  inherited_names_def

lemmas detector_defs = findMissingFiles_def checkTablesForMissing_def checkTable_def
  checkRecordsForMissing_def checkRecord_def checkFilesForMissing_def markTableMissing_def
  markRecordMissing_def markFileMissing_def when_running_def appendToPath_def path_join_def
  keys_def Let_def


section \<open>Ordinary names\<close>

text \<open>
  On an ordinary name the guarded assignment fills in an own property when
  there is none, and a loop whose steps neither throw nor touch the built-in
  objects is a fold.
\<close>

lemma assign_if_falsy_ordinary:
  assumes "ordinary rt b k"
  shows "assign_if_falsy rt b ob k = Some (if map_of ob k = None then AList.update k [] ob else ob)"
  using assms by (simp add: assign_if_falsy_def ordinary_def)

lemma forEach_ordinary:
  assumes "\<And>x m. x \<in> set xs \<Longrightarrow> f x (m, b) = Inr (g x m, b)"
  shows "forEach f xs (m, b) = Inr (fold g xs m, b)"
  using assms by (induction xs arbitrary: m) simp_all

section \<open>Manifest writer\<close>

lemma processFilesInManRec_eq:
  "processFilesInManRec env (recKeyToPath tp entry) (snd entry) fw =
     (record_written env fw tp entry, snd (record_after env fw tp entry),
      map (\<lambda>file. Call_writeSNFile fw file (recKeyToPath tp entry)) (files (snd entry)))"
  by (simp add: processFilesInManRec_def record_written_def record_after_def strip_record_def
      list_all_iff Let_def)

lemma processRecsInManTable_eq:
  "processRecsInManTable env (path_join (sourcePath env) (fst entry)) (snd entry) fw =
     (table_written env fw entry, snd (table_after env fw entry),
      map Call_createDirRecursively (map (recKeyToPath (path_join (sourcePath env) (fst entry))) (records (snd entry)))
      @ (if dirs_created env (path_join (sourcePath env) (fst entry)) (snd entry)
         then concat (map (\<lambda>r. map (\<lambda>file. Call_writeSNFile fw file (recKeyToPath (path_join (sourcePath env) (fst entry)) r)) (files (snd r))) (records (snd entry)))
         else []))"
  by (simp add: processRecsInManTable_def processFilesInManRec_eq table_written_def
      table_after_def dirs_created_def list_all_iff Let_def comp_def record_after_def)

lemma processTablesInManifest_ok:
  "fst (processTablesInManifest env tabs fw) = all_written env fw tabs"
  by (simp add: processTablesInManifest_def processRecsInManTable_eq all_written_def Let_def
      list_all_iff)

lemma processTablesInManifest_tables:
  "fst (snd (processTablesInManifest env tabs fw)) = map (table_after env fw) tabs"
  by (simp add: processTablesInManifest_def processRecsInManTable_eq Let_def table_after_def)

lemma table_calls_not_persist:
  "filter is_writeFileForce (snd (snd (processRecsInManTable env (path_join (sourcePath env) (fst entry)) (snd entry) fw))) = []"
  by (auto simp: processRecsInManTable_eq filter_empty_conv)

lemma table_stage_never_persists:
  "filter is_writeFileForce (table_stage_calls env tabs fw) = []"
  by (simp add: table_stage_calls_def processTablesInManifest_def Let_def filter_concat comp_def table_calls_not_persist)

lemma table_calls_force:
  "filter is_forced_writeSNFile (snd (snd (processRecsInManTable env (path_join (sourcePath env) (fst entry)) (snd entry) False))) = []"
  by (auto simp: processRecsInManTable_eq filter_empty_conv)

lemma table_stage_unforced:
  "filter is_forced_writeSNFile (table_stage_calls env tabs False) = []"
  by (simp add: table_stage_calls_def processTablesInManifest_def Let_def filter_concat comp_def table_calls_force)

lemma table_stage_writes_logged:
  assumes "entry \<in> set tabs" and "dirs_created env (path_join (sourcePath env) (fst entry)) (snd entry)"
    and "r \<in> set (records (snd entry))" and "file \<in> set (files (snd r))"
  shows "Call_writeSNFile fw file (recKeyToPath (path_join (sourcePath env) (fst entry)) r)
           \<in> set (table_stage_calls env tabs fw)"
  using assms
  by (force simp: table_stage_calls_def processTablesInManifest_def Let_def processRecsInManTable_eq)

lemma all_written_strips:
  assumes "all_written env fw tabs"
  shows "map (table_after env fw) tabs = map strip_table tabs"
  using assms
  by (auto simp: all_written_def table_written_def table_after_def strip_table_def
      record_after_def list_all_iff)

lemma processManifest_eq:
  "processManifest env manifest fw =
     (if all_written env fw (tables manifest)
      then (if writeFileForce env (manifestPath env) (JSON_stringify env (strip_manifest manifest) 2)
            then Inr () else Inl FilesystemError,
            strip_manifest manifest,
            table_stage_calls env (tables manifest) fw @
              [Call_writeFileForce (manifestPath env) (JSON_stringify env (strip_manifest manifest) 2)])
      else (Inl FilesystemError,
            manifest\<lparr>tables := map (table_after env fw) (tables manifest)\<rparr>,
            table_stage_calls env (tables manifest) fw))"
proof -
  obtain ok tabs calls where p: "processTablesInManifest env (tables manifest) fw = (ok, tabs, calls)"
    by (cases "processTablesInManifest env (tables manifest) fw") auto
  have ok: "ok = all_written env fw (tables manifest)"
    using processTablesInManifest_ok [of env "tables manifest" fw] p by simp
  have tabs: "tabs = map (table_after env fw) (tables manifest)"
    using processTablesInManifest_tables [of env "tables manifest" fw] p by simp
  have calls: "calls = table_stage_calls env (tables manifest) fw"
    using p by (simp add: table_stage_calls_def)
  show ?thesis
    by (simp add: processManifest_def p ok tabs calls Let_def strip_manifest_def all_written_strips)
qed

text \<open>
  C2, as claimed: the transient content is stripped only after every file
  write of every table and record has succeeded. This fails: the second
  record's write is rejected, so \<open>processManifest\<close> fails, and yet the first
  record, whose own write succeeded, has lost its content in memory.
\<close>

theorem processManifest_strips_before_all_writes_counterexample:
  "fst (processManifest demo_fs demo_manifest_bad False) = Inl FilesystemError
   \<and> \<not> writeSNFile demo_fs False demo_file_bad [''src'', ''sys_script'', ''two'']
   \<and> contents_of demo_manifest_bad = [[[Some ''x''], [Some ''y'']]]
   \<and> contents_of (fst (snd (processManifest demo_fs demo_manifest_bad False)))
       = [[[None], [Some ''y'']]]"
  by (simp add: demo_defs writer_defs contents_of_def)

text \<open>
  C2, amended. \<open>processManifest\<close> strips contents record by record: after the
  run a record is stripped exactly when the directories of its table were
  created and its own file writes all succeeded, also when the run as a whole
  fails. The table stage never writes the manifest. When every directory
  creation and every file write succeeds, every file of every record has been
  written, every record is stripped, and the last call, the only manifest
  write, persists \<open>JSON.stringify\<close> with indent 2 of the stripped manifest;
  the result is that write's outcome. When some directory creation or file
  write fails, \<open>processManifest\<close> fails and no call writes the manifest.
\<close>

theorem processManifest_persists_after_all_writes:
  "processManifest env manifest forceWrite = (res, manifest', calls) \<Longrightarrow>
     manifest' = manifest\<lparr>tables := map (table_after env forceWrite) (tables manifest)\<rparr>
   \<and> filter is_writeFileForce (table_stage_calls env (tables manifest) forceWrite) = []
   \<and> (all_written env forceWrite (tables manifest) \<longrightarrow>
        manifest' = strip_manifest manifest
      \<and> calls = table_stage_calls env (tables manifest) forceWrite @
                  [Call_writeFileForce (manifestPath env) (JSON_stringify env (strip_manifest manifest) 2)]
      \<and> res = (if writeFileForce env (manifestPath env) (JSON_stringify env (strip_manifest manifest) 2)
               then Inr () else Inl FilesystemError)
      \<and> (\<forall>entry r file. entry \<in> set (tables manifest) \<and> r \<in> set (records (snd entry))
             \<and> file \<in> set (files (snd r)) \<longrightarrow>
           Call_writeSNFile forceWrite file (recKeyToPath (path_join (sourcePath env) (fst entry)) r)
             \<in> set (table_stage_calls env (tables manifest) forceWrite)))
   \<and> (\<not> all_written env forceWrite (tables manifest) \<longrightarrow>
        res = Inl FilesystemError
      \<and> calls = table_stage_calls env (tables manifest) forceWrite
      \<and> filter is_writeFileForce calls = [])"
proof -
  assume run: "processManifest env manifest forceWrite = (res, manifest', calls)"
  have logged: "Call_writeSNFile forceWrite f (recKeyToPath (path_join (sourcePath env) (fst entry)) r)
             \<in> set (table_stage_calls env (tables manifest) forceWrite)"
    if "all_written env forceWrite (tables manifest)" "entry \<in> set (tables manifest)"
       "r \<in> set (records (snd entry))" "f \<in> set (files (snd r))" for entry r f
  proof -
    have "dirs_created env (path_join (sourcePath env) (fst entry)) (snd entry)"
      using that(1,2) by (simp add: all_written_def table_written_def list_all_iff)
    with that(2-4) show ?thesis by (simp add: table_stage_writes_logged)
  qed
  show ?thesis
  proof (cases "all_written env forceWrite (tables manifest)")
    case True
    then have "strip_manifest manifest =
        manifest\<lparr>tables := map (table_after env forceWrite) (tables manifest)\<rparr>"
      by (simp add: strip_manifest_def all_written_strips)
    with True show ?thesis
      using run logged
      by (auto simp: processManifest_eq table_stage_never_persists)
  next
    case False
    then show ?thesis
      using run by (auto simp: processManifest_eq table_stage_never_persists)
  qed
qed

theorem processManifest_persists_after_all_writes_witness:
  "processManifest demo_fs demo_manifest False =
     (Inr (), strip_manifest demo_manifest,
      [Call_createDirRecursively [''src'', ''sys_script'', ''one''],
       Call_writeSNFile False demo_file_a [''src'', ''sys_script'', ''one''],
       Call_writeFileForce [''sinc.manifest.json''] ''x_app''])
   \<and> all_written demo_fs False (tables demo_manifest)
   \<and> contents_of demo_manifest = [[[Some ''x'']]]
   \<and> contents_of (strip_manifest demo_manifest) = [[[None]]]
   \<and> \<not> all_written demo_fs False (tables demo_manifest_bad)
   \<and> fst (processManifest demo_fs demo_manifest_bad False) = Inl FilesystemError
   \<and> filter is_writeFileForce (snd (snd (processManifest demo_fs demo_manifest_bad False))) = []"
proof -
  have aw: "all_written demo_fs False (tables demo_manifest)"
    by (simp add: all_written_def table_written_def dirs_created_def record_written_def demo_defs)
  have naw: "\<not> all_written demo_fs False (tables demo_manifest_bad)"
    by (simp add: all_written_def table_written_def dirs_created_def record_written_def demo_defs)
  have calls: "table_stage_calls demo_fs (tables demo_manifest) False =
      [Call_createDirRecursively [''src'', ''sys_script'', ''one''],
       Call_writeSNFile False demo_file_a [''src'', ''sys_script'', ''one'']]"
    by (simp add: table_stage_calls_def writer_defs demo_defs)
  have json: "JSON_stringify demo_fs (strip_manifest demo_manifest) 2 = ''x_app''"
    by (simp add: demo_defs strip_manifest_def)
  obtain res m' cs where run: "processManifest demo_fs demo_manifest False = (res, m', cs)"
    by (cases "processManifest demo_fs demo_manifest False") auto
  obtain res2 m2 cs2 where run2: "processManifest demo_fs demo_manifest_bad False = (res2, m2, cs2)"
    by (cases "processManifest demo_fs demo_manifest_bad False") auto
  note t = processManifest_persists_after_all_writes [OF run]
  have mp: "manifestPath demo_fs = [''sinc.manifest.json'']" and wf: "writeFileForce demo_fs p s" for p s
    by (simp_all add: demo_fs_def)
  from t aw have "m' = strip_manifest demo_manifest" by blast
  moreover from t aw have "cs = table_stage_calls demo_fs (tables demo_manifest) False @
      [Call_writeFileForce (manifestPath demo_fs)
         (JSON_stringify demo_fs (strip_manifest demo_manifest) 2)]" by blast
  moreover from t aw have "res = (if writeFileForce demo_fs (manifestPath demo_fs)
         (JSON_stringify demo_fs (strip_manifest demo_manifest) 2) then Inr ()
       else Inl FilesystemError)" by blast
  ultimately have ok: "res = Inr () \<and> m' = strip_manifest demo_manifest \<and>
      cs = [Call_createDirRecursively [''src'', ''sys_script'', ''one''],
       Call_writeSNFile False demo_file_a [''src'', ''sys_script'', ''one''],
       Call_writeFileForce [''sinc.manifest.json''] ''x_app'']"
    by (simp add: calls json mp wf)
  have bad: "res2 = Inl FilesystemError \<and> filter is_writeFileForce cs2 = []"
    using processManifest_persists_after_all_writes [OF run2] naw by simp
  have c1: "contents_of demo_manifest = [[[Some ''x'']]]"
    by (simp add: contents_of_def demo_defs)
  have c3: "contents_of (strip_manifest demo_manifest) = [[[None]]]"
    by (simp add: contents_of_def strip_manifest_def strip_table_def strip_record_def
        deleteContent_def demo_defs)
  show ?thesis using run run2 ok bad aw naw c1 c3 by simp
qed

section \<open>Missing-file detector\<close>

subsection \<open>The detector only probes\<close>

lemma own_checkFiles_log:
  "snd (own_checkFilesForMissing env rp fs t r st) = snd st @ map (Call_SNFileExists rp) fs"
  by (simp add: own_checkFilesForMissing_def)

lemma own_checkRecord_probes:
  assumes "list_all is_probe (snd s)"
  shows "list_all is_probe (snd (own_checkRecord env tp t entry s))"
  using assms by (auto simp: own_checkRecord_def Let_def own_checkFiles_log list_all_iff)

lemma own_checkRecords_probes:
  assumes "list_all is_probe (snd st)"
  shows "list_all is_probe (snd (own_checkRecordsForMissing env tp recs t st))"
  unfolding own_checkRecordsForMissing_def Let_def
proof (rule fold_invariant [where Q = "\<lambda>x. True"])
  show "list_all is_probe (snd (fst st, snd st @ map Call_pathExists (map (appendToPath tp) (keys recs))))"
    using assms by (auto simp: list_all_iff)
next
  fix x and s :: "MissingFileTableMap \<times> fs_call list"
  assume "list_all is_probe (snd s)"
  then show "list_all is_probe (snd (own_checkRecord env tp t x s))"
    by (rule own_checkRecord_probes)
qed simp

lemma own_checkTable_probes:
  assumes "list_all is_probe (snd s)"
  shows "list_all is_probe (snd (own_checkTable env topPath entry s))"
  using assms by (simp add: own_checkTable_def Let_def own_checkRecords_probes)

lemma own_checkTables_probes:
  assumes "list_all is_probe (snd st)"
  shows "list_all is_probe (snd (own_checkTablesForMissing env topPath tabs st))"
  unfolding own_checkTablesForMissing_def Let_def
proof (rule fold_invariant [where Q = "\<lambda>x. True"])
  show "list_all is_probe (snd (fst st, snd st @ map Call_pathExists (map (appendToPath topPath) (keys tabs))))"
    using assms by (auto simp: list_all_iff)
next
  fix x and s :: "MissingFileTableMap \<times> fs_call list"
  assume "list_all is_probe (snd s)"
  then show "list_all is_probe (snd (own_checkTable env topPath x s))"
    by (rule own_checkTable_probes)
qed simp

lemma own_findMissingFiles_probes: "list_all is_probe (snd (own_findMissingFiles env man))"
  by (simp add: own_findMissingFiles_def own_checkTables_probes)

lemma probes_not_writes:
  assumes "list_all is_probe cs"
  shows "filter is_writeFileForce cs = []" and "filter is_forced_writeSNFile cs = []"
proof -
  have "\<not> is_writeFileForce c \<and> \<not> is_forced_writeSNFile c" if "is_probe c" for c
    using that by (cases c) simp_all
  then show "filter is_writeFileForce cs = []" and "filter is_forced_writeSNFile cs = []"
    using assms by (simp_all add: filter_empty_conv list_all_iff)
qed

subsection \<open>When the missing-file object is empty\<close>













subsection \<open>A table whose directory is absent\<close>






















subsection \<open>The detector on ordinary names\<close>












subsection \<open>The probes do not depend on what is marked\<close>

lemma checkRecord_log:
  "snd (checkRecord env tp t entry s) = snd (own_checkRecord env tp t entry (m, snd s))"
  by (simp add: checkRecord_def own_checkRecord_def Let_def checkFilesForMissing_def
      own_checkFilesForMissing_def)

lemma fold_log:
  assumes "\<And>x s m. snd (f x s) = snd (g x (m, snd s))"
  shows "snd (fold f xs s) = snd (fold g xs (m, snd s))"
proof (induction xs arbitrary: s m)
  case Nil
  then show ?case by simp
next
  case (Cons x xs)
  have "g x (m, snd s) = (fst (g x (m, snd s)), snd (f x s))"
    using assms [of x s m] by (simp add: prod_eq_iff)
  then show ?case
    using Cons.IH [of "f x s" "fst (g x (m, snd s))"] by simp
qed

lemma checkRecords_log:
  "snd (checkRecordsForMissing env tp recs t s)
     = snd (own_checkRecordsForMissing env tp recs t (m, snd s))"
proof -
  have "snd (fold (checkRecord env tp t) recs (fst s, snd s @ ps))
      = snd (fold (own_checkRecord env tp t) recs (m, snd (fst s, snd s @ ps)))" for ps
    by (rule fold_log) (rule checkRecord_log)
  then show ?thesis
    by (simp add: checkRecordsForMissing_def own_checkRecordsForMissing_def Let_def)
qed

lemma checkTable_log:
  "snd (checkTable env topPath entry s) = snd (own_checkTable env topPath entry (m, snd s))"
  using checkRecords_log [of env _ _ _ s m]
  by (simp add: checkTable_def own_checkTable_def Let_def)

lemma checkTables_log:
  "snd (checkTablesForMissing env topPath tabs s)
     = snd (own_checkTablesForMissing env topPath tabs (m, snd s))"
proof -
  have "snd (fold (checkTable env topPath) tabs (fst s, snd s @ ps))
      = snd (fold (own_checkTable env topPath) tabs (m, snd (fst s, snd s @ ps)))" for ps
    by (rule fold_log) (rule checkTable_log)
  then show ?thesis
    by (simp add: checkTablesForMissing_def own_checkTablesForMissing_def Let_def)
qed

lemma findMissingFiles_log:
  "snd (findMissingFiles env manifest) = snd (own_findMissingFiles env manifest)"
  using checkTables_log [of env "sourcePath env" "tables manifest" "(Inr ([], builtins env), [])" "[]"]
  by (simp add: findMissingFiles_def own_findMissingFiles_def case_prod_beta)

lemma findMissingFiles_probes: "list_all is_probe (snd (findMissingFiles env man))"
  by (simp add: findMissingFiles_log own_findMissingFiles_probes)

subsection \<open>When the returned object is empty\<close>

text \<open>
  The detector looks for a record under the record's key, the writer puts it
  under the record's \<open>name\<close>: the two directories differ when key and name
  do.
\<close>

lemma writer_and_detector_paths:
  "recKeyToPath tablePath entry = appendToPath tablePath (fst entry)
     \<longleftrightarrow> rec_name (snd entry) = fst entry"
  by (simp add: recKeyToPath_def appendToPath_def path_join_def)




subsection \<open>A table whose directory is absent, on any names\<close>




section \<open>Remote reconciler\<close>

text \<open>
  C10. \<open>processMissingFiles\<close> never writes the manifest file and never forces
  a write: its calls are the detector's probes, the fetch, and the table stage
  with \<open>forceWrite = false\<close>. When the detection resolves and the fetch
  succeeds, every fetched file of a table whose record directories could be
  created is written, unforced. When the detection rejects,
  \<open>processMissingFiles\<close> rejects with the same error after the probes.
\<close>

theorem processMissingFiles_never_persists_manifest:
  "filter is_writeFileForce (snd (processMissingFiles env newManifest)) = []
   \<and> filter is_forced_writeSNFile (snd (processMissingFiles env newManifest)) = []
   \<and> (fst (findMissingFiles env newManifest) = Inr missing
        \<and> getMissingFiles env missing = Inr filesToProcess \<longrightarrow>
        snd (processMissingFiles env newManifest) =
          snd (findMissingFiles env newManifest)
          @ [Call_getMissingFiles missing]
          @ table_stage_calls env filesToProcess False
      \<and> fst (processMissingFiles env newManifest) =
          (if all_written env False filesToProcess then Inr () else Inl FilesystemError)
      \<and> (\<forall>entry r file. entry \<in> set filesToProcess
             \<and> dirs_created env (path_join (sourcePath env) (fst entry)) (snd entry)
             \<and> r \<in> set (records (snd entry)) \<and> file \<in> set (files (snd r)) \<longrightarrow>
           Call_writeSNFile False file (recKeyToPath (path_join (sourcePath env) (fst entry)) r)
             \<in> set (snd (processMissingFiles env newManifest))))
   \<and> (fst (findMissingFiles env newManifest) = Inl e \<longrightarrow>
        processMissingFiles env newManifest = (Inl e, snd (findMissingFiles env newManifest)))"
proof -
  obtain outcome probes where f: "findMissingFiles env newManifest = (outcome, probes)"
    by (cases "findMissingFiles env newManifest") auto
  have pr: "list_all is_probe probes"
    using findMissingFiles_probes [of env newManifest] f by simp
  note nw = probes_not_writes [OF pr]
  have c4: "processMissingFiles env newManifest = (Inl e, snd (findMissingFiles env newManifest))"
    if "fst (findMissingFiles env newManifest) = Inl e"
    using that f by (simp add: processMissingFiles_def)
  have run: "processMissingFiles env newManifest =
          (if all_written env False fp then Inr () else Inl FilesystemError,
           snd (findMissingFiles env newManifest) @ [Call_getMissingFiles m]
           @ table_stage_calls env fp False)"
    if h: "fst (findMissingFiles env newManifest) = Inr m \<and> getMissingFiles env m = Inr fp"
    for m fp
  proof -
    obtain ok tabs calls where p: "processTablesInManifest env fp False = (ok, tabs, calls)"
      by (cases "processTablesInManifest env fp False") auto
    have calls: "calls = table_stage_calls env fp False"
      using p by (simp add: table_stage_calls_def)
    have ok: "ok = all_written env False fp"
      using processTablesInManifest_ok [of env fp False] p by simp
    show ?thesis
      using f h p by (simp add: processMissingFiles_def calls ok)
  qed
  have c12: "filter is_writeFileForce (snd (processMissingFiles env newManifest)) = []
      \<and> filter is_forced_writeSNFile (snd (processMissingFiles env newManifest)) = []"
  proof (cases outcome)
    case (Inl err)
    then show ?thesis
      using f nw by (simp add: processMissingFiles_def)
  next
    case found: (Inr found)
    show ?thesis
    proof (cases "getMissingFiles env found")
      case (Inl err)
      then show ?thesis
        using f found nw by (simp add: processMissingFiles_def)
    next
      case (Inr frag)
      have "fst (findMissingFiles env newManifest) = Inr found \<and> getMissingFiles env found = Inr frag"
        using f found Inr by simp
      then have "processMissingFiles env newManifest =
          (if all_written env False frag then Inr () else Inl FilesystemError,
           snd (findMissingFiles env newManifest) @ [Call_getMissingFiles found]
           @ table_stage_calls env frag False)"
        by (rule run)
      then show ?thesis
        using f nw by (simp add: table_stage_never_persists table_stage_unforced)
    qed
  qed
  have c3: "snd (processMissingFiles env newManifest) =
          snd (findMissingFiles env newManifest)
          @ [Call_getMissingFiles missing]
          @ table_stage_calls env filesToProcess False
      \<and> fst (processMissingFiles env newManifest) =
          (if all_written env False filesToProcess then Inr () else Inl FilesystemError)
      \<and> (\<forall>entry r file. entry \<in> set filesToProcess
             \<and> dirs_created env (path_join (sourcePath env) (fst entry)) (snd entry)
             \<and> r \<in> set (records (snd entry)) \<and> file \<in> set (files (snd r)) \<longrightarrow>
           Call_writeSNFile False file (recKeyToPath (path_join (sourcePath env) (fst entry)) r)
             \<in> set (snd (processMissingFiles env newManifest)))"
    if h: "fst (findMissingFiles env newManifest) = Inr missing
           \<and> getMissingFiles env missing = Inr filesToProcess"
  proof (intro conjI allI impI)
    fix entry r f'
    assume a: "entry \<in> set filesToProcess
             \<and> dirs_created env (path_join (sourcePath env) (fst entry)) (snd entry)
             \<and> r \<in> set (records (snd entry)) \<and> f' \<in> set (files (snd r))"
    then have "Call_writeSNFile False f' (recKeyToPath (path_join (sourcePath env) (fst entry)) r)
        \<in> set (table_stage_calls env filesToProcess False)"
      by (intro table_stage_writes_logged) simp_all
    then show "Call_writeSNFile False f' (recKeyToPath (path_join (sourcePath env) (fst entry)) r)
        \<in> set (snd (processMissingFiles env newManifest))"
      by (simp add: run [OF h])
  qed (simp_all add: run [OF h])
  show ?thesis
    using c12 c3 c4 by blast
qed

theorem processMissingFiles_never_persists_manifest_witness:
  "fst (findMissingFiles demo_fs demo_manifest_bad)
       = Inr [(''sys_script'', [(''1'', [(''a'', ''js'')]), (''2'', [(''bad'', ''js'')])])]
   \<and> getMissingFiles demo_fs
        [(''sys_script'', [(''1'', [(''a'', ''js'')]), (''2'', [(''bad'', ''js'')])])]
       = Inr demo_fragment
   \<and> dirs_created demo_fs (path_join (sourcePath demo_fs) ''sys_script'')
        \<lparr>records = [(''one'', demo_rec_one)]\<rparr>
   \<and> snd (processMissingFiles demo_fs demo_manifest_bad) =
       [Call_pathExists [''src'', ''sys_script''],
        Call_pathExists [''src'', ''sys_script'', ''one''],
        Call_pathExists [''src'', ''sys_script'', ''two''],
        Call_getMissingFiles
          [(''sys_script'', [(''1'', [(''a'', ''js'')]), (''2'', [(''bad'', ''js'')])])],
        Call_createDirRecursively [''src'', ''sys_script'', ''one''],
        Call_writeSNFile False demo_file_a [''src'', ''sys_script'', ''one'']]
   \<and> fst (processMissingFiles demo_fs demo_manifest_bad) = Inr ()
   \<and> Call_writeSNFile False demo_file_a [''src'', ''sys_script'', ''one'']
        \<in> set (snd (processMissingFiles demo_fs demo_manifest_bad))
   \<and> fst (findMissingFiles demo_fs demo_manifest_constructor_id)
       = Inl (Error ''missingObj[table][recordId].push is not a function'')
   \<and> processMissingFiles demo_fs demo_manifest_constructor_id
       = (Inl (Error ''missingObj[table][recordId].push is not a function''),
          [Call_pathExists [''src'', ''sys_ui_page'']])"
proof -
  have fm: "findMissingFiles demo_fs demo_manifest_bad =
      (Inr [(''sys_script'', [(''1'', [(''a'', ''js'')]), (''2'', [(''bad'', ''js'')])])],
       [Call_pathExists [''src'', ''sys_script''],
        Call_pathExists [''src'', ''sys_script'', ''one''],
        Call_pathExists [''src'', ''sys_script'', ''two'']])"
    by (simp add: detector_defs runtime_defs demo_defs)
  have g: "getMissingFiles demo_fs
        [(''sys_script'', [(''1'', [(''a'', ''js'')]), (''2'', [(''bad'', ''js'')])])]
       = Inr demo_fragment"
    by (simp add: demo_fs_def)
  have dc: "dirs_created demo_fs (path_join (sourcePath demo_fs) ''sys_script'')
        \<lparr>records = [(''one'', demo_rec_one)]\<rparr>"
    by (simp add: dirs_created_def demo_fs_def)
  have aw: "all_written demo_fs False demo_fragment"
    by (simp add: all_written_def table_written_def dirs_created_def record_written_def demo_defs)
  have calls: "table_stage_calls demo_fs demo_fragment False =
      [Call_createDirRecursively [''src'', ''sys_script'', ''one''],
       Call_writeSNFile False demo_file_a [''src'', ''sys_script'', ''one'']]"
    by (simp add: table_stage_calls_def writer_defs demo_defs)
  have fc: "findMissingFiles demo_fs demo_manifest_constructor_id
       = (Inl (Error ''missingObj[table][recordId].push is not a function''),
          [Call_pathExists [''src'', ''sys_ui_page'']])"
    by (simp add: demo_manifest_constructor_id_def detector_defs runtime_defs demo_defs)
  note t = processMissingFiles_never_persists_manifest
      [of demo_fs demo_manifest_bad
          "[(''sys_script'', [(''1'', [(''a'', ''js'')]), (''2'', [(''bad'', ''js'')])])]"
          demo_fragment]
  from t g fm have "snd (processMissingFiles demo_fs demo_manifest_bad) =
          snd (findMissingFiles demo_fs demo_manifest_bad)
          @ [Call_getMissingFiles
               [(''sys_script'', [(''1'', [(''a'', ''js'')]), (''2'', [(''bad'', ''js'')])])]]
          @ table_stage_calls demo_fs demo_fragment False" by simp
  then have log: "snd (processMissingFiles demo_fs demo_manifest_bad) =
       [Call_pathExists [''src'', ''sys_script''],
        Call_pathExists [''src'', ''sys_script'', ''one''],
        Call_pathExists [''src'', ''sys_script'', ''two''],
        Call_getMissingFiles
          [(''sys_script'', [(''1'', [(''a'', ''js'')]), (''2'', [(''bad'', ''js'')])])],
        Call_createDirRecursively [''src'', ''sys_script'', ''one''],
        Call_writeSNFile False demo_file_a [''src'', ''sys_script'', ''one'']]"
    by (simp add: fm calls)
  from t g fm have "fst (processMissingFiles demo_fs demo_manifest_bad) =
          (if all_written demo_fs False demo_fragment then Inr () else Inl FilesystemError)" by simp
  then have res: "fst (processMissingFiles demo_fs demo_manifest_bad) = Inr ()"
    by (simp add: aw)
  from processMissingFiles_never_persists_manifest
      [of demo_fs demo_manifest_constructor_id _ _
          "Error ''missingObj[table][recordId].push is not a function''"] fc
  have rej: "processMissingFiles demo_fs demo_manifest_constructor_id
       = (Inl (Error ''missingObj[table][recordId].push is not a function''),
          [Call_pathExists [''src'', ''sys_ui_page'']])"
    by simp
  show ?thesis using fm g dc log res fc rej by simp
qed

section \<open>File tree builder\<close>

subsection \<open>The tree on own properties\<close>




lemma in_update:
  assumes "x \<in> set (AList.update k v al)"
  shows "x = (k, v) \<or> x \<in> set al"
  using assms by (induction al) (auto split: if_splits)

lemma wf_tree_groupStep:
  assumes "wf_tree T"
  shows "wf_tree (own_groupStep c T)"
proof -
  define tree1 where "tree1 = own_fillIfNotExists T (tableName c)"
  define tab0 where "tab0 = lookup_obj tree1 (tableName c)"
  define tab1 where "tab1 = own_fillIfNotExists tab0 (ctx_sys_id c)"
  define rec0 where "rec0 = lookup_obj tab1 (ctx_sys_id c)"
  define recMap where "recMap = AList.update (targetField c) c rec0"
  define tab2 where "tab2 = AList.update (ctx_sys_id c) recMap tab1"
  have step: "own_groupStep c T = AList.update (tableName c) tab2 tree1"
    by (simp add: own_groupStep_def Let_def tree1_def tab0_def tab1_def rec0_def recMap_def tab2_def)
  have dT: "distinct (keys T)" and aT: "\<And>t. t \<in> set T \<Longrightarrow> wf_table t"
    using assms by (auto simp: wf_tree_def list_all_iff)
  have d1: "distinct (keys tree1)"
    using dT by (simp add: tree1_def own_fillIfNotExists_def keys_def distinct_update)
  have tab0: "distinct (keys tab0) \<and> list_all wf_record tab0"
  proof (cases "map_of T (tableName c)")
    case None
    then show ?thesis
      by (simp add: tab0_def tree1_def own_fillIfNotExists_def lookup_obj_def update_conv' keys_def)
  next
    case (Some tab)
    then have "(tableName c, tab) \<in> set T" by (rule map_of_SomeD)
    then have "wf_table (tableName c, tab)" by (rule aT)
    then show ?thesis
      using Some by (simp add: tab0_def tree1_def own_fillIfNotExists_def lookup_obj_def wf_table_def)
  qed
  have rec0: "distinct (keys rec0)"
  proof (cases "map_of tab0 (ctx_sys_id c)")
    case None
    then show ?thesis
      by (simp add: rec0_def tab1_def own_fillIfNotExists_def lookup_obj_def update_conv' keys_def)
  next
    case (Some r)
    then have "(ctx_sys_id c, r) \<in> set tab0" by (rule map_of_SomeD)
    then have "wf_record (ctx_sys_id c, r)" using tab0 by (auto simp: list_all_iff)
    then show ?thesis
      using Some by (simp add: rec0_def tab1_def own_fillIfNotExists_def lookup_obj_def wf_record_def)
  qed
  have wr: "wf_record (ctx_sys_id c, recMap)"
    using rec0 by (simp add: wf_record_def recMap_def keys_def distinct_update)
  have tab1_el: "x = (ctx_sys_id c, []) \<or> x \<in> set tab0" if "x \<in> set tab1" for x
    using that by (auto simp: tab1_def own_fillIfNotExists_def dest: in_update split: if_splits)
  have tab2_el: "wf_record x" if "x \<in> set tab2" for x
  proof -
    from that have "x = (ctx_sys_id c, recMap) \<or> x \<in> set tab1"
      unfolding tab2_def by (rule in_update)
    then show ?thesis
    proof
      assume "x = (ctx_sys_id c, recMap)"
      then show ?thesis using wr by simp
    next
      assume x1: "x \<in> set tab1"
      have "fst x \<noteq> ctx_sys_id c \<or> x = (ctx_sys_id c, recMap)"
      proof (cases "fst x = ctx_sys_id c")
        case True
        have "distinct (map fst tab2)"
          using tab0 by (simp add: tab2_def tab1_def own_fillIfNotExists_def keys_def distinct_update)
        moreover have "(ctx_sys_id c, recMap) \<in> set tab2"
          by (simp add: tab2_def map_of_SomeD update_conv')
        ultimately show ?thesis
          using that True by (metis eq_key_imp_eq_value prod.collapse)
      qed simp
      then show ?thesis
      proof
        assume "fst x \<noteq> ctx_sys_id c"
        then have "x \<in> set tab0" using tab1_el [OF x1] by auto
        then show ?thesis using tab0 by (auto simp: list_all_iff)
      next
        assume "x = (ctx_sys_id c, recMap)"
        then show ?thesis using wr by simp
      qed
    qed
  qed
  have wt: "wf_table (tableName c, tab2)"
    using tab0 tab2_el
    by (simp add: wf_table_def tab2_def tab1_def own_fillIfNotExists_def keys_def distinct_update
        list_all_iff)
  have tree1_el: "x = (tableName c, []) \<or> x \<in> set T" if "x \<in> set tree1" for x
    using that by (auto simp: tree1_def own_fillIfNotExists_def dest: in_update split: if_splits)
  have el: "wf_table x" if "x \<in> set (AList.update (tableName c) tab2 tree1)" for x
  proof -
    from that have "x = (tableName c, tab2) \<or> x \<in> set tree1" by (rule in_update)
    then show ?thesis
    proof
      assume "x = (tableName c, tab2)"
      then show ?thesis using wt by simp
    next
      assume x1: "x \<in> set tree1"
      have "fst x \<noteq> tableName c \<or> x = (tableName c, tab2)"
      proof (cases "fst x = tableName c")
        case True
        have "distinct (map fst (AList.update (tableName c) tab2 tree1))"
          using d1 by (simp add: keys_def distinct_update)
        moreover have "(tableName c, tab2) \<in> set (AList.update (tableName c) tab2 tree1)"
          by (simp add: map_of_SomeD update_conv')
        ultimately show ?thesis
          using that True by (metis eq_key_imp_eq_value prod.collapse)
      qed simp
      then show ?thesis
      proof
        assume "fst x \<noteq> tableName c"
        then have "x \<in> set T" using tree1_el [OF x1] by auto
        then show ?thesis by (rule aT)
      next
        assume "x = (tableName c, tab2)"
        then show ?thesis using wt by simp
      qed
    qed
  qed
  show ?thesis
    unfolding step wf_tree_def using d1 el by (simp add: keys_def distinct_update list_all_iff)
qed

lemma wf_tree_groupAppFiles: "wf_tree (own_groupAppFiles xs)"
proof -
  have "wf_tree (fold own_groupStep xs T)" if "wf_tree T" for T
    by (rule fold_invariant [where Q = "\<lambda>x. True"]) (simp_all add: that wf_tree_groupStep)
  then show ?thesis by (simp add: own_groupAppFiles_def wf_tree_def keys_def)
qed


lemmas group_defs = groupAppFiles_def groupStep_def fillIfNotExists_def Let_def

subsection \<open>Grouping on ordinary names\<close>

lemma fillIfNotExists_ordinary:
  assumes "ordinary rt b k"
  shows "fillIfNotExists rt b rec k = Some (own_fillIfNotExists rec k)"
  using assms
  by (simp add: fillIfNotExists_def own_fillIfNotExists_def assign_if_falsy_ordinary)

lemma groupStep_ordinary:
  assumes "ordinary rt b (tableName c)" and "ordinary rt b (ctx_sys_id c)"
    and "assignable rt b (targetField c)"
  shows "groupStep rt c (T, b) = Inr (own_groupStep c T, b)"
  using assms
  by (simp add: groupStep_def own_groupStep_def fillIfNotExists_ordinary Let_def)

lemma groupAppFiles_ordinary:
  assumes "ordinary_contexts rt b xs"
  shows "groupAppFiles rt b xs = Inr (own_groupAppFiles xs, b)"
  unfolding groupAppFiles_def own_groupAppFiles_def
  by (rule forEach_ordinary)
     (use assms in \<open>simp add: groupStep_ordinary ordinary_contexts_def list_all_iff\<close>)

text \<open>
  Swapping two contexts of different tables swaps the enumeration order of the
  tables and nothing else. With a duplicate key the later context overwrites
  the earlier one, so the order of the input decides which one the tree holds.
\<close>

lemma groupAppFiles_example:
  "groupAppFiles demo_runtime [] [demo_ctx_ok, demo_ctx_bad] =
     Inr ([(''sys_script'', [(''abc'', [(''script'', demo_ctx_ok)])]),
           (''sys_ui_page'', [(''def'', [(''html'', demo_ctx_bad)])])], [])"
  by (simp add: group_defs runtime_defs demo_ctx_ok_def demo_ctx_bad_def)


lemma groupAppFiles_duplicate_order_matters:
  "groupAppFiles demo_runtime [] [demo_ctx_ok, demo_ctx_ok\<lparr>fileContents := ''let x = 2''\<rparr>] =
     Inr ([(''sys_script'', [(''abc'', [(''script'', demo_ctx_ok\<lparr>fileContents := ''let x = 2''\<rparr>)])])], [])"
  "groupAppFiles demo_runtime [] [demo_ctx_ok\<lparr>fileContents := ''let x = 2''\<rparr>, demo_ctx_ok] =
     Inr ([(''sys_script'', [(''abc'', [(''script'', demo_ctx_ok)])])], [])"
  by (simp_all add: group_defs runtime_defs demo_ctx_ok_def)

text \<open>
  A context whose target field is \<open>__proto__\<close> leaves its record without a
  field: the assignment sets the prototype of the record's object.
\<close>

lemma groupAppFiles_builds_record_without_fields:
  "groupAppFiles demo_runtime [] [demo_ctx_ok\<lparr>targetField := ''__proto__''\<rparr>] =
     Inr ([(''sys_script'', [(''abc'', [])])], [])"
  by (simp add: group_defs runtime_defs demo_ctx_ok_def)




section \<open>Build pipeline\<close>








lemmas push_demo_defs = demo_push_env_def demo_aggregate_def demo_ctx_ok_def demo_ctx_bad_def
  demo_record_def demo_record_ok_def


text \<open>Whatever the aggregator does, the message cannot tell where in the record a failed field stands.\<close>

lemma buildRec_message_forgets_field_position:
  assumes "getFinalFileContents env c1 = Inr v" and "getFinalFileContents env c2 = Inl e"
  shows "buildRec env [(f1, c1), (f2, c2)] = buildRec env [(f2, c2)]"
  using assms by (simp add: buildRec_def allSettled_def Let_def)



section \<open>Push orchestrator\<close>

subsection \<open>Promise.all fills the slots by index\<close>

lemma settle_fulfilled:
  assumes "\<forall>i\<in>set order. i < length vs"
  shows "settle (map Inr vs) order slots = Inr (fold (\<lambda>i s. s[i := Some (vs ! i)]) order slots)"
  using assms by (induction order arbitrary: slots) simp_all

lemma fold_slots_length:
  "length (fold (\<lambda>i s. s[i := Some (vs ! i)]) order slots) = length slots"
  by (induction order arbitrary: slots) simp_all

lemma fold_slots_nth:
  assumes "j < length slots"
  shows "fold (\<lambda>i s. s[i := Some (vs ! i)]) order slots ! j
           = (if j \<in> set order then Some (vs ! j) else slots ! j)"
  using assms
proof (induction order arbitrary: slots)
  case Nil
  then show ?case by simp
next
  case (Cons i order)
  then show ?case by (cases "i = j") (auto simp: nth_list_update)
qed

lemma set_completion_order: "set (completion_order time n) = {0..<n}"
  by (simp add: completion_order_def)

lemma Promise_all_fulfilled: "Promise_all time (map Inr vs) = Inr vs"
proof -
  let ?order = "completion_order time (length vs)"
  let ?slots = "fold (\<lambda>i s. s[i := Some (vs ! i)]) ?order (replicate (length vs) None)"
  have "settle (map Inr vs) ?order (replicate (length vs) None) = Inr ?slots"
    by (rule settle_fulfilled) (simp add: set_completion_order)
  moreover have "map the ?slots = vs"
    by (rule nth_equalityI)
       (simp_all add: fold_slots_length fold_slots_nth set_completion_order)
  ultimately show ?thesis by (simp add: Promise_all_def)
qed

lemma settle_rejects:
  assumes "i \<in> set order" and "ps ! i = Inl e"
  shows "\<exists>e'. settle ps order slots = Inl e'"
  using assms by (induction order arbitrary: slots) (auto split: sum.splits)

lemma Promise_all_rejected:
  assumes "i < length ps" and "ps ! i = Inl e"
  shows "\<exists>e'. Promise_all time ps = Inl e'"
proof -
  have "i \<in> set (completion_order time (length ps))"
    using assms(1) by (simp add: set_completion_order)
  then obtain e' where "settle ps (completion_order time (length ps)) (replicate (length ps) None) = Inl e'"
    using settle_rejects assms(2) by blast
  then show ?thesis by (simp add: Promise_all_def)
qed

subsection \<open>One record\<close>

lemma pushRecord_result_any_tick:
  "fst (pushRecord env table entry b tick) = fst (pushRecord env table entry b None)"
  by (simp add: pushRecord_def Let_def split: list.splits PromiseResult.splits sum.splits)

lemma pushRecord_tick:
  "snd (pushRecord env table entry b tick)
     = (if snd entry \<noteq> [] \<and> \<not> is_rejected b then call_tick tick else tick)"
  by (simp add: pushRecord_def Let_def split: list.splits PromiseResult.splits sum.splits)

lemma record_result_Inr:
  assumes "snd entry \<noteq> []"
  shows "\<exists>p. record_result env table entry = Inr p"
  using assms
  by (simp add: record_result_def pushRecord_def Let_def
      split: list.splits PromiseResult.splits sum.splits)

lemma record_result_Inl:
  assumes "snd entry = []"
  shows "record_result env table entry = Inl TypeError"
  using assms by (simp add: record_result_def pushRecord_def)

subsection \<open>The records of a table\<close>

lemma zip_settled:
  "zip tableTree (allSettled (map (\<lambda>entry. buildRec env (snd entry)) tableTree))
     = map (\<lambda>entry. (entry, build_settled env (snd entry))) tableTree"
  by (induction tableTree) (simp_all add: allSettled_def build_settled_def)

lemma pushRecords_Cons:
  "fst (pushRecords env table (x # xs) tick)
     = fst (pushRecord env table (fst x) (snd x) tick)
       # fst (pushRecords env table xs (snd (pushRecord env table (fst x) (snd x) tick)))"
  "snd (pushRecords env table (x # xs) tick)
     = snd (pushRecords env table xs (snd (pushRecord env table (fst x) (snd x) tick)))"
  by (simp_all add: case_prod_beta)

lemma buildAndPushTables_Cons:
  "fst (buildAndPushTables env tm (x # xs) tick)
     = fst (buildAndPush env tm (fst x) (snd x) tick)
       # fst (buildAndPushTables env tm xs (snd (buildAndPush env tm (fst x) (snd x) tick)))"
  "snd (buildAndPushTables env tm (x # xs) tick)
     = snd (buildAndPushTables env tm xs (snd (buildAndPush env tm (fst x) (snd x) tick)))"
  by (simp_all add: case_prod_beta)

lemma pushRecords_results:
  "fst (pushRecords env table (map (\<lambda>entry. (entry, build_settled env (snd entry))) recs) tick)
     = map (record_result env table) recs"
proof (induction recs arbitrary: tick)
  case Nil
  then show ?case by simp
next
  case (Cons r recs)
  show ?case
    using Cons.IH pushRecord_result_any_tick [of env table r "build_settled env (snd r)" tick]
    by (simp add: record_result_def pushRecords_Cons del: pushRecords.simps)
qed

lemma pushRecords_ticks:
  "snd (pushRecords env table (map (\<lambda>entry. (entry, build_settled env (snd entry))) recs) tick)
     = (call_tick ^^ length (filter (reaches_push env) recs)) tick"
proof (induction recs arbitrary: tick)
  case Nil
  then show ?case by simp
next
  case (Cons r recs)
  show ?case
    using Cons.IH [of "snd (pushRecord env table r (build_settled env (snd r)) tick)"]
    by (simp add: pushRecords_Cons pushRecord_tick reaches_push_def funpow_swap1
        del: pushRecords.simps)
qed

lemma buildAndPush_eq:
  "buildAndPush env tm table tableTree tick =
     (Promise_all (recordDone tm table) (map (record_result env table) tableTree),
      (call_tick ^^ length (filter (reaches_push env) tableTree)) tick)"
  using pushRecords_results [of env table tableTree tick]
    pushRecords_ticks [of env table tableTree tick]
  by (simp add: buildAndPush_def Let_def zip_settled case_prod_beta)

lemma buildAndPush_results:
  assumes "list_all (\<lambda>r. snd r \<noteq> []) tableTree"
  shows "fst (buildAndPush env tm table tableTree tick)
           = Inr (map (\<lambda>r. projr (record_result env table r)) tableTree)"
proof -
  have "map (record_result env table) tableTree
      = map Inr (map (\<lambda>r. projr (record_result env table r)) tableTree)"
  proof -
    have "record_result env table r = Inr (projr (record_result env table r))"
      if "r \<in> set tableTree" for r
    proof -
      have "snd r \<noteq> []" using assms that by (simp add: list_all_iff)
      then obtain p where "record_result env table r = Inr p"
        using record_result_Inr by blast
      then show ?thesis by simp
    qed
    then show ?thesis by simp
  qed
  then show ?thesis
    by (simp add: buildAndPush_eq Promise_all_fulfilled del: map_map)
qed

subsection \<open>All tables\<close>

lemma buildAndPushTables_results:
  assumes "records_have_fields tree"
  shows "fst (buildAndPushTables env tm tree tick)
           = map Inr (map (\<lambda>t. map (\<lambda>r. projr (record_result env (fst t) r)) (snd t)) tree)"
  using assms
proof (induction tree arbitrary: tick)
  case Nil
  then show ?case by simp
next
  case (Cons t tree)
  have "list_all (\<lambda>r. snd r \<noteq> []) (snd t)" and "records_have_fields tree"
    using Cons.prems by (simp_all add: records_have_fields_def)
  then show ?case
    using Cons.IH buildAndPush_results [of "snd t" env tm "fst t" tick]
    by (simp add: buildAndPushTables_Cons del: buildAndPushTables.simps)
qed

lemma funpow_plus: "(f ^^ a) ((f ^^ b) x) = (f ^^ (a + b)) x"
  by (simp add: funpow_add)

lemma buildAndPushTables_ticks:
  "snd (buildAndPushTables env tm tree tick)
     = (call_tick ^^ length (filter (reaches_push env) (concat (map snd tree)))) tick"
proof (induction tree arbitrary: tick)
  case Nil
  then show ?case by simp
next
  case (Cons t tree)
  show ?case
    using Cons.IH [of "snd (buildAndPush env tm (fst t) (snd t) tick)"]
    by (simp add: buildAndPushTables_Cons buildAndPush_eq funpow_plus add.commute
        del: buildAndPushTables.simps)
qed

lemma countRecsInTree_eq: "countRecsInTree tree = length (concat (map snd tree))"
proof -
  have "fold (\<lambda>entry acc. acc + length (keys (snd entry))) tree n
      = n + length (concat (map snd tree))" for n
    by (induction tree arbitrary: n) (simp_all add: keys_def)
  then show ?thesis by (simp add: countRecsInTree_def)
qed

lemma call_tick_funpow_Some:
  "(call_tick ^^ k) (Some b) = Some (b\<lparr>curr := curr b + k\<rparr>)"
  by (induction k) (simp_all add: call_tick_def)

lemma call_tick_funpow_None: "(call_tick ^^ k) None = None"
  by (induction k) (simp_all add: call_tick_def)

lemmas call_tick_funpow = call_tick_funpow_Some call_tick_funpow_None

lemma wf_tree_records_have_fields:
  assumes "wf_tree tree"
  shows "records_have_fields tree"
  using assms
  by (auto simp: wf_tree_def wf_table_def wf_record_def records_have_fields_def list_all_iff)

lemma groupAppFiles_records_have_fields:
  assumes "ordinary_contexts rt b ctxs" and "groupAppFiles rt b ctxs = Inr (tree, b')"
  shows "records_have_fields tree"
proof -
  have "tree = own_groupAppFiles ctxs"
    using assms by (simp add: groupAppFiles_ordinary)
  then show ?thesis
    by (simp add: wf_tree_records_have_fields wf_tree_groupAppFiles)
qed

lemma buildAndPush_rejects:
  assumes "r \<in> set tableTree" and "snd r = []"
  shows "\<exists>e. fst (buildAndPush env tm table tableTree tick) = Inl e"
proof -
  obtain i where i: "i < length tableTree" "tableTree ! i = r"
    using assms(1) by (auto simp: in_set_conv_nth)
  then have "map (record_result env table) tableTree ! i = Inl TypeError"
    using assms(2) by (simp add: record_result_Inl)
  then show ?thesis
    using i(1) by (simp add: buildAndPush_eq Promise_all_rejected)
qed

lemma buildAndPushTables_nth:
  assumes "i < length tree"
  shows "\<exists>tick'. fst (buildAndPushTables env tm tree tick) ! i
           = fst (buildAndPush env tm (fst (tree ! i)) (snd (tree ! i)) tick')"
  using assms
proof (induction tree arbitrary: i tick)
  case Nil
  then show ?case by simp
next
  case (Cons t tree)
  show ?case
  proof (cases i)
    case 0
    then show ?thesis by (auto simp: buildAndPushTables_Cons simp del: buildAndPushTables.simps)
  next
    case (Suc j)
    then have "j < length tree" using Cons.prems by simp
    from Cons.IH [OF this] show ?thesis
      using Suc by (simp add: buildAndPushTables_Cons del: buildAndPushTables.simps)
  qed
qed

lemma buildAndPushTables_length: "length (fst (buildAndPushTables env tm tree tick)) = length tree"
  by (induction tree arbitrary: tick)
     (simp_all add: buildAndPushTables_Cons del: buildAndPushTables.simps, simp)

lemma pushFiles_rejects_record_without_fields:
  assumes "\<not> records_have_fields tree"
  shows "\<exists>e. fst (pushFiles env tm tree recordCount) = Inl e"
proof -
  obtain t r where t: "t \<in> set tree" and r: "r \<in> set (snd t)" "snd r = []"
    using assms by (auto simp: records_have_fields_def list_all_iff)
  obtain i where i: "i < length tree" "tree ! i = t"
    using t by (auto simp: in_set_conv_nth)
  let ?ps = "fst (buildAndPushTables env tm tree (getProgTick (getLogLevel env) recordCount))"
  obtain tick' where "?ps ! i = fst (buildAndPush env tm (fst t) (snd t) tick')"
    using buildAndPushTables_nth [OF i(1)] i(2) by blast
  moreover obtain e where "fst (buildAndPush env tm (fst t) (snd t) tick') = Inl e"
    using buildAndPush_rejects [OF r] by blast
  ultimately have "?ps ! i = Inl e" by simp
  moreover have "i < length ?ps" using i(1) by (simp add: buildAndPushTables_length)
  ultimately obtain e' where "Promise_all (tableDone tm) ?ps = Inl e'"
    using Promise_all_rejected by blast
  then show ?thesis
    by (simp add: pushFiles_def Let_def case_prod_beta)
qed

lemma pushFiles_results:
  assumes "records_have_fields tree"
  shows "fst (pushFiles env tm tree recordCount)
           = Inr (concat (map (\<lambda>t. map (\<lambda>r. projr (record_result env (fst t) r)) (snd t)) tree))"
  using buildAndPushTables_results [OF assms, of env tm "getProgTick (getLogLevel env) recordCount"]
  by (simp add: pushFiles_def Let_def Promise_all_fulfilled case_prod_beta del: map_map)

text \<open>
  C3, as claimed: for every input tree \<open>pushFiles\<close> returns one result per
  record. This fails on a tree with a record that has no field: the closure
  of that record throws at \<open>recMap[recFields[0]].name\<close>, and \<open>pushFiles\<close>
  rejects instead of returning a list.
\<close>

theorem pushFiles_rejects_record_without_fields_counterexample:
  "fst (pushFiles demo_push_env demo_timing [(''sys_script'', [(''abc'', [])])] 1) = Inl TypeError
   \<and> countRecsInTree [(''sys_script'', [(''abc'', [])])] = 1"
  by (simp add: pushFiles_def Let_def buildAndPush_eq record_result_def pushRecord_def
      Promise_all_def completion_order_def countRecsInTree_def keys_def)

text \<open>
  C3, amended. For a tree in which every record has at least one field, as
  in every tree that \<open>groupAppFiles\<close> builds from contexts with ordinary
  names and assignable fields, \<open>pushFiles\<close> resolves to the
  flat list that holds, table by table in the tree's enumeration order and
  record by record within each table, the result of each record; it has one
  entry per record. The list does not depend on the instants at which the
  promises of the tables and records settle.
\<close>

theorem pushFiles_results_in_enumeration_order:
  assumes "records_have_fields tree"
  shows "fst (pushFiles env tm tree recordCount)
           = Inr (concat (map (\<lambda>t. map (\<lambda>r. projr (record_result env (fst t) r)) (snd t)) tree))
       \<and> fst (pushFiles env tm' tree recordCount) = fst (pushFiles env tm tree recordCount)
       \<and> length (concat (map (\<lambda>t. map (\<lambda>r. projr (record_result env (fst t) r)) (snd t)) tree))
           = countRecsInTree tree"
proof -
  have "length (concat (map (\<lambda>t. map (\<lambda>r. projr (record_result env (fst t) r)) (snd t)) tree))
           = countRecsInTree tree"
    by (simp add: countRecsInTree_eq length_concat comp_def)
  then show ?thesis
    using pushFiles_results [OF assms, of env tm recordCount]
      pushFiles_results [OF assms, of env tm' recordCount]
    by simp
qed

subsection \<open>How often the progress bar ticks\<close>

lemma pushFiles_ticks:
  "snd (pushFiles env tm tree recordCount)
     = (if getLogLevel env = ''info''
        then Some \<lparr>total = recordCount,
                   curr = length (filter (reaches_push env) (concat (map snd tree)))\<rparr>
        else None)"
proof -
  have "snd (pushFiles env tm tree recordCount)
      = snd (buildAndPushTables env tm tree (getProgTick (getLogLevel env) recordCount))"
    by (simp add: pushFiles_def Let_def case_prod_beta split: sum.splits)
  then show ?thesis
    by (cases "getLogLevel env = ''info''")
       (simp_all add: buildAndPushTables_ticks getProgTick_def call_tick_funpow)
qed

lemma demo_tree_eq: "demo_tree =
   [(''sys_script'', [(''abc'', [(''script'', demo_ctx_ok)])]),
    (''sys_ui_page'', [(''def'', [(''html'', demo_ctx_bad)])])]"
  by (simp add: demo_tree_def groupAppFiles_example)

lemma demo_results:
  "record_result demo_push_env ''sys_script'' (''abc'', [(''script'', demo_ctx_ok)])
     = Inr \<lparr>success = True, message = ''sys_script > ok.js''\<rparr>"
  "record_result demo_push_env ''sys_ui_page'' (''def'', [(''html'', demo_ctx_bad)])
     = Inr \<lparr>success = False, message = ''sys_ui_page > bad.ts : 0: boom; ''\<rparr>"
  by (simp_all add: record_result_def pushRecord_def build_settled_def buildRec_def allSettled_def
      Let_def keys_def summarizeRecord_def push_demo_defs string_of_nat.simps)

theorem pushFiles_results_in_enumeration_order_witness:
  "records_have_fields demo_tree
   \<and> completion_order (tableDone demo_timing) 2 = [1, 0]
   \<and> fst (pushFiles demo_push_env demo_timing demo_tree 2)
       = Inr [\<lparr>success = True, message = ''sys_script > ok.js''\<rparr>,
              \<lparr>success = False, message = ''sys_ui_page > bad.ts : 0: boom; ''\<rparr>]
   \<and> countRecsInTree demo_tree = 2"
proof -
  have h: "records_have_fields demo_tree"
    by (simp add: demo_tree_eq records_have_fields_def)
  have o: "completion_order (tableDone demo_timing) 2 = [1, 0]"
    by (simp add: completion_order_def demo_timing_def upt_rec numeral_2_eq_2)
  have n: "countRecsInTree demo_tree = 2"
    by (simp add: demo_tree_eq countRecsInTree_def keys_def)
  show ?thesis
    using pushFiles_results_in_enumeration_order [OF h, of demo_push_env demo_timing 2 demo_timing] h o n
    by (simp add: demo_tree_eq demo_results)
qed

text \<open>
  C1. The comment in \<open>buildAndPush\<close> says of the \<open>finally\<close> block holding
  \<open>tick()\<close> that it always runs, and the progress bar is sized by the record
  count. But the closure returns for a rejected build before it enters the
  \<open>try\<close>, so such a record is never ticked: on the example tree of two
  records, one of which fails to build, the bar of total 2 ends at 1.
\<close>

theorem pushFiles_skips_tick_on_build_failure:
  "getLogLevel demo_push_env = ''info''
   \<and> countRecsInTree demo_tree = 2
   \<and> pushFiles demo_push_env demo_timing demo_tree 2
       = (Inr [\<lparr>success = True, message = ''sys_script > ok.js''\<rparr>,
               \<lparr>success = False, message = ''sys_ui_page > bad.ts : 0: boom; ''\<rparr>],
          Some \<lparr>total = 2, curr = 1\<rparr>)"
proof -
  have n: "countRecsInTree demo_tree = 2"
    by (simp add: demo_tree_eq countRecsInTree_def keys_def)
  have l: "getLogLevel demo_push_env = ''info''"
    by (simp add: demo_push_env_def)
  have h: "records_have_fields demo_tree"
    by (simp add: demo_tree_eq records_have_fields_def)
  have r: "fst (pushFiles demo_push_env demo_timing demo_tree 2)
       = Inr [\<lparr>success = True, message = ''sys_script > ok.js''\<rparr>,
              \<lparr>success = False, message = ''sys_ui_page > bad.ts : 0: boom; ''\<rparr>]"
    using pushFiles_results [OF h, of demo_push_env demo_timing 2]
    by (simp add: demo_tree_eq demo_results)
  have "filter (reaches_push demo_push_env) (concat (map snd demo_tree))
      = [(''abc'', [(''script'', demo_ctx_ok)])]"
    by (simp add: demo_tree_eq reaches_push_def build_settled_def buildRec_def allSettled_def
        Let_def keys_def push_demo_defs)
  then have t: "snd (pushFiles demo_push_env demo_timing demo_tree 2) = Some \<lparr>total = 2, curr = 1\<rparr>"
    using l by (simp add: pushFiles_ticks)
  show ?thesis
    using n l r t by (simp add: prod_eq_iff)
qed

section \<open>Scope guard: the four cases of checkScope\<close>

lemma checkScope_no_manifest:
  "checkScope env None swap trace =
     (Inr \<lparr>match = True, sessionScope = [], manifestScope = []\<rparr>, trace)"
  by (simp add: checkScope_def)

lemma checkScope_matching:
  assumes "respond env trace GetCurrentScope = Inr (scope m)"
  shows "checkScope env (Some m) swap trace =
     (Inr \<lparr>match = True, sessionScope = scope m, manifestScope = scope m\<rparr>,
      trace @ [GetCurrentScope])"
  using assms by (simp add: checkScope_def remote_def)

lemma checkScope_mismatch_no_swap:
  assumes "respond env trace GetCurrentScope = Inr s" and "s \<noteq> scope m"
  shows "checkScope env (Some m) False trace =
     (Inr \<lparr>match = False, sessionScope = s, manifestScope = scope m\<rparr>,
      trace @ [GetCurrentScope])"
  using assms by (simp add: checkScope_def remote_def)

lemma swapServerScope_ok:
  assumes "respond env t GetUserSysId = Inr userSysId"
    and "respond env (t @ [GetUserSysId]) (GetCurrentAppUserPrefSysId userSysId) = Inr prefId"
    and "mutation = (if prefId \<noteq> [] then UpdateCurrentAppUserPref scopeId prefId
                     else CreateCurrentAppUserPref scopeId userSysId)"
    and "respond env (t @ [GetUserSysId, GetCurrentAppUserPrefSysId userSysId]) mutation = Inr ack"
  shows "swapServerScope env scopeId t =
     (Inr (), t @ [GetUserSysId, GetCurrentAppUserPrefSysId userSysId, mutation])"
  using assms by (cases "prefId = []") (simp_all add: swapServerScope_def remote_def)

lemma checkScope_mismatch_swap:
  assumes "respond env trace GetCurrentScope = Inr s" and "s \<noteq> scope m"
    and "respond env (trace @ [GetCurrentScope]) (GetScopeId (scope m)) = Inr scopeId"
    and "respond env (trace @ [GetCurrentScope, GetScopeId (scope m)]) GetUserSysId = Inr userSysId"
    and "respond env (trace @ [GetCurrentScope, GetScopeId (scope m), GetUserSysId])
           (GetCurrentAppUserPrefSysId userSysId) = Inr prefId"
    and "mutation = (if prefId \<noteq> [] then UpdateCurrentAppUserPref scopeId prefId
                     else CreateCurrentAppUserPref scopeId userSysId)"
    and "respond env (trace @ [GetCurrentScope, GetScopeId (scope m), GetUserSysId,
            GetCurrentAppUserPrefSysId userSysId]) mutation = Inr ack"
    and "respond env (trace @ [GetCurrentScope, GetScopeId (scope m), GetUserSysId,
            GetCurrentAppUserPrefSysId userSysId, mutation]) GetCurrentScope = Inr s'"
  shows "checkScope env (Some m) True trace =
     (Inr \<lparr>match = (s' = scope m), sessionScope = s', manifestScope = scope m\<rparr>,
      trace @ [GetCurrentScope, GetScopeId (scope m), GetUserSysId,
               GetCurrentAppUserPrefSysId userSysId, mutation, GetCurrentScope])"
proof -
  have sw: "swapServerScope env scopeId (trace @ [GetCurrentScope, GetScopeId (scope m)]) =
      (Inr (), (trace @ [GetCurrentScope, GetScopeId (scope m)]) @
               [GetUserSysId, GetCurrentAppUserPrefSysId userSysId, mutation])"
    using assms(4-7) by (intro swapServerScope_ok) simp_all
  show ?thesis
    using assms(1-3,8) sw by (simp add: checkScope_def swapScope_def remote_def)
qed

text \<open>
  C8. \<open>checkScope\<close> in its four cases. Without a manifest it answers
  \<open>match = true\<close> with empty scopes and calls nothing. With a manifest it reads
  the active scope; when that equals the manifest's scope it answers
  \<open>match = true\<close>, and when it differs and \<open>swap\<close> is false it answers
  \<open>match = false\<close>; in both cases the read is the only remote call, so nothing
  is mutated. When the scopes differ and \<open>swap\<close> is true, and the remote calls
  succeed, it resolves the scope id, the user and the user's scope preference,
  makes exactly one mutating call (an update of the preference when there is
  one, its creation otherwise), reads the active scope again and answers
  \<open>match\<close> = (the scope read again equals the manifest's scope).
\<close>

theorem checkScope_four_cases:
  "checkScope env None swap trace =
     (Inr \<lparr>match = True, sessionScope = [], manifestScope = []\<rparr>, trace)
   \<and> (respond env trace GetCurrentScope = Inr (scope m) \<longrightarrow>
        checkScope env (Some m) swap trace =
          (Inr \<lparr>match = True, sessionScope = scope m, manifestScope = scope m\<rparr>,
           trace @ [GetCurrentScope]))
   \<and> (respond env trace GetCurrentScope = Inr s \<and> s \<noteq> scope m \<longrightarrow>
        checkScope env (Some m) False trace =
          (Inr \<lparr>match = False, sessionScope = s, manifestScope = scope m\<rparr>,
           trace @ [GetCurrentScope]))
   \<and> (respond env trace GetCurrentScope = Inr s \<and> s \<noteq> scope m
        \<and> respond env (trace @ [GetCurrentScope]) (GetScopeId (scope m)) = Inr scopeId
        \<and> respond env (trace @ [GetCurrentScope, GetScopeId (scope m)]) GetUserSysId
            = Inr userSysId
        \<and> respond env (trace @ [GetCurrentScope, GetScopeId (scope m), GetUserSysId])
            (GetCurrentAppUserPrefSysId userSysId) = Inr prefId
        \<and> mutation = (if prefId \<noteq> [] then UpdateCurrentAppUserPref scopeId prefId
                       else CreateCurrentAppUserPref scopeId userSysId)
        \<and> respond env (trace @ [GetCurrentScope, GetScopeId (scope m), GetUserSysId,
              GetCurrentAppUserPrefSysId userSysId]) mutation = Inr ack
        \<and> respond env (trace @ [GetCurrentScope, GetScopeId (scope m), GetUserSysId,
              GetCurrentAppUserPrefSysId userSysId, mutation]) GetCurrentScope = Inr s' \<longrightarrow>
        checkScope env (Some m) True trace =
          (Inr \<lparr>match = (s' = scope m), sessionScope = s', manifestScope = scope m\<rparr>,
           trace @ [GetCurrentScope, GetScopeId (scope m), GetUserSysId,
                    GetCurrentAppUserPrefSysId userSysId, mutation, GetCurrentScope])
        \<and> filter is_mutation [GetCurrentScope, GetScopeId (scope m), GetUserSysId,
                    GetCurrentAppUserPrefSysId userSysId, mutation, GetCurrentScope]
            = [mutation])"
proof (intro conjI impI)
  show "checkScope env None swap trace =
     (Inr \<lparr>match = True, sessionScope = [], manifestScope = []\<rparr>, trace)"
    by (rule checkScope_no_manifest)
next
  assume "respond env trace GetCurrentScope = Inr (scope m)"
  then show "checkScope env (Some m) swap trace =
          (Inr \<lparr>match = True, sessionScope = scope m, manifestScope = scope m\<rparr>,
           trace @ [GetCurrentScope])"
    by (rule checkScope_matching)
next
  assume "respond env trace GetCurrentScope = Inr s \<and> s \<noteq> scope m"
  then show "checkScope env (Some m) False trace =
          (Inr \<lparr>match = False, sessionScope = s, manifestScope = scope m\<rparr>,
           trace @ [GetCurrentScope])"
    by (simp add: checkScope_mismatch_no_swap)
next
  assume h: "respond env trace GetCurrentScope = Inr s \<and> s \<noteq> scope m
        \<and> respond env (trace @ [GetCurrentScope]) (GetScopeId (scope m)) = Inr scopeId
        \<and> respond env (trace @ [GetCurrentScope, GetScopeId (scope m)]) GetUserSysId
            = Inr userSysId
        \<and> respond env (trace @ [GetCurrentScope, GetScopeId (scope m), GetUserSysId])
            (GetCurrentAppUserPrefSysId userSysId) = Inr prefId
        \<and> mutation = (if prefId \<noteq> [] then UpdateCurrentAppUserPref scopeId prefId
                       else CreateCurrentAppUserPref scopeId userSysId)
        \<and> respond env (trace @ [GetCurrentScope, GetScopeId (scope m), GetUserSysId,
              GetCurrentAppUserPrefSysId userSysId]) mutation = Inr ack
        \<and> respond env (trace @ [GetCurrentScope, GetScopeId (scope m), GetUserSysId,
              GetCurrentAppUserPrefSysId userSysId, mutation]) GetCurrentScope = Inr s'"
  then show "checkScope env (Some m) True trace =
          (Inr \<lparr>match = (s' = scope m), sessionScope = s', manifestScope = scope m\<rparr>,
           trace @ [GetCurrentScope, GetScopeId (scope m), GetUserSysId,
                    GetCurrentAppUserPrefSysId userSysId, mutation, GetCurrentScope])"
    by (intro checkScope_mismatch_swap) blast+
  from h show "filter is_mutation [GetCurrentScope, GetScopeId (scope m), GetUserSysId,
                    GetCurrentAppUserPrefSysId userSysId, mutation, GetCurrentScope]
            = [mutation]"
    by simp
qed

text \<open>
  The four cases on the example instance: the manifest's scope is \<open>x_app\<close>.
  After an earlier swap to \<open>x_app\<close> the scopes match; from the initial scope
  \<open>global\<close> they differ, and a swap creates the preference and then matches.
\<close>

theorem checkScope_four_cases_witness:
  "checkScope demo_remote None True [] =
     (Inr \<lparr>match = True, sessionScope = [], manifestScope = []\<rparr>, [])
   \<and> respond demo_remote [CreateCurrentAppUserPref ''id_x_app'' ''u1''] GetCurrentScope
       = Inr (scope demo_scoped_manifest)
   \<and> checkScope demo_remote (Some demo_scoped_manifest) True
       [CreateCurrentAppUserPref ''id_x_app'' ''u1''] =
     (Inr \<lparr>match = True, sessionScope = ''x_app'', manifestScope = ''x_app''\<rparr>,
      [CreateCurrentAppUserPref ''id_x_app'' ''u1'', GetCurrentScope])
   \<and> respond demo_remote [] GetCurrentScope = Inr ''global''
   \<and> ''global'' \<noteq> scope demo_scoped_manifest
   \<and> checkScope demo_remote (Some demo_scoped_manifest) False [] =
     (Inr \<lparr>match = False, sessionScope = ''global'', manifestScope = ''x_app''\<rparr>,
      [GetCurrentScope])
   \<and> checkScope demo_remote (Some demo_scoped_manifest) True [] =
     (Inr \<lparr>match = True, sessionScope = ''x_app'', manifestScope = ''x_app''\<rparr>,
      [GetCurrentScope, GetScopeId ''x_app'', GetUserSysId, GetCurrentAppUserPrefSysId ''u1'',
       CreateCurrentAppUserPref ''id_x_app'' ''u1'', GetCurrentScope])"
proof -
  have r1: "respond demo_remote [CreateCurrentAppUserPref ''id_x_app'' ''u1''] GetCurrentScope
       = Inr (scope demo_scoped_manifest)"
    by (simp add: demo_remote_def demo_scoped_manifest_def)
  have r2: "respond demo_remote [] GetCurrentScope = Inr ''global''"
    by (simp add: demo_remote_def)
  have ne: "''global'' \<noteq> scope demo_scoped_manifest"
    by (simp add: demo_scoped_manifest_def)
  have sc: "scope demo_scoped_manifest = ''x_app''"
    by (simp add: demo_scoped_manifest_def)
  note a = checkScope_four_cases [of demo_remote True "[]" demo_scoped_manifest
      "''global''" "''id_x_app''" "''u1''" "[]"
      "CreateCurrentAppUserPref ''id_x_app'' ''u1''" "[]" "''x_app''"]
  note b = checkScope_four_cases [of demo_remote True
      "[CreateCurrentAppUserPref ''id_x_app'' ''u1'']" demo_scoped_manifest]
  have c4: "checkScope demo_remote (Some demo_scoped_manifest) True [] =
     (Inr \<lparr>match = True, sessionScope = ''x_app'', manifestScope = ''x_app''\<rparr>,
      [GetCurrentScope, GetScopeId ''x_app'', GetUserSysId, GetCurrentAppUserPrefSysId ''u1'',
       CreateCurrentAppUserPref ''id_x_app'' ''u1'', GetCurrentScope])"
    using a r2 ne by (simp add: demo_remote_def sc)
  have c3: "checkScope demo_remote (Some demo_scoped_manifest) False [] =
     (Inr \<lparr>match = False, sessionScope = ''global'', manifestScope = ''x_app''\<rparr>,
      [GetCurrentScope])"
    using a r2 ne by (simp add: sc)
  have c2: "checkScope demo_remote (Some demo_scoped_manifest) True
       [CreateCurrentAppUserPref ''id_x_app'' ''u1''] =
     (Inr \<lparr>match = True, sessionScope = ''x_app'', manifestScope = ''x_app''\<rparr>,
      [CreateCurrentAppUserPref ''id_x_app'' ''u1'', GetCurrentScope])"
    using b r1 by (simp add: sc)
  have c1: "checkScope demo_remote None True [] =
     (Inr \<lparr>match = True, sessionScope = [], manifestScope = []\<rparr>, [])"
    using a by simp
  show ?thesis using c1 c2 c3 c4 r1 r2 ne by simp
qed

section \<open>Update set manager\<close>

text \<open>
  C7. The doc comment of \<open>createAndAssignUpdateSet\<close> says that a blank name
  creates no update set. The function has no such guard: whatever the remote
  answers, its first call is \<open>createUpdateSet\<close> with the name it was given,
  the blank one included.
\<close>

theorem createAndAssignUpdateSet_blank_still_creates:
  "take (Suc (length trace)) (snd (createAndAssignUpdateSet env [] trace))
     = trace @ [CreateUpdateSet []]"
  by (auto simp: createAndAssignUpdateSet_def remote_def split: sum.splits prod.splits)

lemma createAndAssignUpdateSet_blank_example:
  "createAndAssignUpdateSet demo_remote [] [] =
     (Inr ([], ''us1''),
      [CreateUpdateSet [], GetUserSysId, GetCurrentUpdateSetUserPref ''u1'',
       CreateCurrentUpdateSetUserPref ''us1'' ''u1''])"
  by (simp add: createAndAssignUpdateSet_def remote_def demo_remote_def)

lemma createAndAssignUpdateSet_ok:
  assumes "respond env trace (CreateUpdateSet updateSetName) = Inr updateSetSysId"
    and "respond env (trace @ [CreateUpdateSet updateSetName]) GetUserSysId = Inr userSysId"
    and "respond env (trace @ [CreateUpdateSet updateSetName, GetUserSysId])
           (GetCurrentUpdateSetUserPref userSysId) = Inr prefId"
    and "mutation = (if prefId \<noteq> [] then UpdateCurrentUpdateSetUserPref updateSetSysId prefId
                     else CreateCurrentUpdateSetUserPref updateSetSysId userSysId)"
    and "respond env (trace @ [CreateUpdateSet updateSetName, GetUserSysId,
           GetCurrentUpdateSetUserPref userSysId]) mutation = Inr ack"
  shows "createAndAssignUpdateSet env updateSetName trace =
     (Inr (updateSetName, updateSetSysId),
      trace @ [CreateUpdateSet updateSetName, GetUserSysId,
               GetCurrentUpdateSetUserPref userSysId, mutation])"
  using assms by (cases "prefId = []") (simp_all add: createAndAssignUpdateSet_def remote_def)

end
